theory Spec2Isabelle
  imports Complex_Main
begin

section \<open>Python values and exceptions\<close>

text \<open>
  Strings are lists of characters; one \<^typ>\<open>char\<close> stands for one code point of a Python
  \<open>str\<close> (so the embedding covers texts over the code points 0..255). Python floats are
  modelled as real numbers: comparisons are exact, arithmetic does not round.
\<close>

datatype exn_class =
    SecurityException | PromptInjectionException | ClientError | TimeoutError
  | ValueError | JSONDecodeError | RecursionError | RuntimeError | TypeError | KeyError
  | AttributeError | ZeroDivisionError | OtherError

text \<open>
  An exception: its class and the text that \<open>str(e)\<close> gives. The classes are told apart
  exactly: \<open>except json.JSONDecodeError\<close> does not catch a plain \<open>ValueError\<close>.
\<close>

datatype exn = Exn (exn_cls: exn_class) (exn_msg: string)

text \<open>
  The values that \<open>json.loads\<close> and \<open>resp.json()\<close> produce. A number is a real (Python's
  \<open>int\<close> and \<open>float\<close> compare and subtract across the two types); \<open>JNonFinite\<close> stands for
  the floats \<open>nan\<close>, \<open>inf\<close> and \<open>-inf\<close>, which \<open>json.loads\<close> accepts and for which
  \<open>0 <= x <= 10\<close> is false. An object is the list of its items, looked up with \<open>map_of\<close>.
\<close>

datatype json =
    JNull | JBool bool | JNum real | JNonFinite | JStr string
  | JArr "json list" | JObj "(string \<times> json) list"

text \<open>A Python \<open>dict\<close> with string keys.\<close>

type_synonym pydict = "string \<rightharpoonup> json"

text \<open>\<open>str(n)\<close> for a natural number.\<close>

fun str_nat :: "nat \<Rightarrow> string" where
  "str_nat n =
     (if n < 10 then [''0123456789'' ! n]
      else str_nat (n div 10) @ [''0123456789'' ! (n mod 10)])"

declare str_nat.simps [simp del]

text \<open>
  \<open>str.isspace\<close> on the code points below 256; \<open>str.strip()\<close> and the class \<open>\s\<close> of
  \<open>re\<close> use it.
\<close>

definition py_isspace :: "char \<Rightarrow> bool" where
  "py_isspace c =
     (let n = (of_char c :: nat)
      in (9 \<le> n \<and> n \<le> 13) \<or> (28 \<le> n \<and> n \<le> 32) \<or> n = 133 \<or> n = 160)"

definition py_strip :: "string \<Rightarrow> string" where
  "py_strip s = rev (dropWhile py_isspace (rev (dropWhile py_isspace s)))"

definition is_digit :: "char \<Rightarrow> bool" where
  "is_digit c = (let n = (of_char c :: nat) in 48 \<le> n \<and> n \<le> 57)"

text \<open>Lower case of an ASCII letter, for the \<open>(?i)\<close> flag of the patterns below.\<close>

definition ascii_lower :: "char \<Rightarrow> char" where
  "ascii_lower c =
     (case map_of (zip ''ABCDEFGHIJKLMNOPQRSTUVWXYZ'' ''abcdefghijklmnopqrstuvwxyz'') c of
        Some l \<Rightarrow> l
      | None \<Rightarrow> c)"

definition starts_with :: "'a list \<Rightarrow> 'a list \<Rightarrow> bool" where
  "starts_with s p = (take (length p) s = p)"

text \<open>\<open>p in s\<close> for two strings: \<open>p\<close> occurs in \<open>s\<close> as a contiguous piece.\<close>

fun contains :: "'a list \<Rightarrow> 'a list \<Rightarrow> bool" where
  "contains [] p = (p = [])"
| "contains (c # cs) p = (starts_with (c # cs) p \<or> contains cs p)"

text \<open>
  \<open>re.search\<close>: the first position, from the left, at which the pattern matches; \<open>m\<close>
  decides a match at the head of its argument.
\<close>

fun re_search :: "(string \<Rightarrow> 'a option) \<Rightarrow> string \<Rightarrow> 'a option" where
  "re_search m [] = m []"
| "re_search m (c # cs) = (case m (c # cs) of Some r \<Rightarrow> Some r | None \<Rightarrow> re_search m cs)"

section \<open>Configuration (ai_agent.py, SecurityConfig and ModelConfig)\<close>

record model_config =
  api_key :: string
  base_url :: string
  models :: "string list"
  review_model :: string
  temperature_range :: "real \<times> real"
  timeout :: int
  max_retries :: int

record security_config =
  max_prompt_length :: int
  max_tokens :: int
  allowed_domains :: "string list"
  rate_limit_requests :: int
  rate_limit_window :: int

section \<open>Prompt guard\<close>

subsection \<open>\<open>_validate_prompt\<close>\<close>

text \<open>
  Each entry of \<open>self.suspicious_patterns\<close> is \<open>(?i)(a|b|...)\<close> with literal alternatives:
  it matches iff one of the alternatives occurs in the prompt, letter case ignored. An
  entry is kept as the pattern's text (for the message) and its alternatives.
\<close>

definition backslash :: char where
  "backslash = CHR 0x5C"

definition suspicious_patterns_init :: "(string \<times> string list) list" where
  "suspicious_patterns_init =
     [(''(?i)(sudo|rm -rf|chmod|passwd|ssh-key)'',
         [''sudo'', ''rm -rf'', ''chmod'', ''passwd'', ''ssh-key'']),
      (''(?i)(import os|import subprocess|__import__)'',
         [''import os'', ''import subprocess'', ''__import__'']),
      (''(?i)(system|exec|eval|compile|execfile)'',
         [''system'', ''exec'', ''eval'', ''compile'', ''execfile'']),
      (''(?i)('' @ [backslash] @ ''.'' @ [backslash] @ ''./|~/|/etc/|/bin/|/var/)'',
         [''../'', ''~/'', ''/etc/'', ''/bin/'', ''/var/''])]"

definition pattern_found :: "string list \<Rightarrow> string \<Rightarrow> bool" where
  "pattern_found alternatives prompt =
     (\<exists>a \<in> set alternatives. contains (map ascii_lower prompt) a)"

definition validate_prompt ::
  "security_config \<Rightarrow> (string \<times> string list) list \<Rightarrow> string \<Rightarrow> exn + bool" where
  "validate_prompt sec suspicious_patterns prompt =
     (if int (length prompt) > max_prompt_length sec
      then Inl (Exn PromptInjectionException (''Prompt too long: '' @ str_nat (length prompt)))
      else (case find (\<lambda>(pattern, alternatives). pattern_found alternatives prompt)
                   suspicious_patterns of
              Some (pattern, alternatives) \<Rightarrow>
                Inl (Exn PromptInjectionException (''Malicious pattern detected: '' @ pattern))
            | None \<Rightarrow> Inr True))"

subsection \<open>\<open>_check_rate_limit\<close>\<close>

text \<open>
  The method reads the clock (\<open>now\<close>), replaces \<open>self.request_timestamps\<close> by the pruned
  list, and then either raises or appends \<open>now\<close>. The pruned list stays assigned when it
  raises, so the model returns the new list in both cases.
\<close>

definition check_rate_limit ::
  "security_config \<Rightarrow> real list \<Rightarrow> real \<Rightarrow> exn option \<times> real list" where
  "check_rate_limit sec request_timestamps now =
     (let pruned = filter (\<lambda>ts. now - ts < real_of_int (rate_limit_window sec)) request_timestamps
      in if int (length pruned) \<ge> rate_limit_requests sec
         then (Some (Exn SecurityException ''Rate limit exceeded''), pruned)
         else (None, pruned @ [now]))"

text \<open>A sequence of calls at the given clock readings: the outcome of each and the final window.\<close>

fun check_rate_limit_seq ::
  "security_config \<Rightarrow> real list \<Rightarrow> real list \<Rightarrow> exn option list \<times> real list" where
  "check_rate_limit_seq sec ts [] = ([], ts)"
| "check_rate_limit_seq sec ts (now # nows) =
     (let (r, ts') = check_rate_limit sec ts now;
          (rs, ts'') = check_rate_limit_seq sec ts' nows
      in (r # rs, ts''))"

subsection \<open>\<open>_sanitize_prompt\<close>\<close>

text \<open>
  \<open>re.sub(r'<[^>]+>', '', prompt)\<close>: the scan goes left to right. At a \<open><\<close> the pattern
  matches iff the next character exists and is not \<open>>\<close> and some \<open>>\<close> follows; the greedy
  \<open>[^>]+\<close> then takes every character up to the first \<open>>\<close>, and the scan resumes behind it.
  Anywhere else the character is kept.
\<close>

function strip_tags :: "string \<Rightarrow> string" where
  "strip_tags [] = []"
| "strip_tags (c # cs) =
     (if c = CHR ''<'' \<and> cs \<noteq> [] \<and> hd cs \<noteq> CHR ''>'' \<and> CHR ''>'' \<in> set cs
      then strip_tags (tl (dropWhile (\<lambda>d. d \<noteq> CHR ''>'') cs))
      else c # strip_tags cs)"
  by pat_completeness auto
termination
proof (relation "measure length")
  fix c :: char and cs :: string
  have "length (tl (dropWhile (\<lambda>d. d \<noteq> CHR ''>'') cs)) \<le> length cs"
    using length_dropWhile_le [of "\<lambda>d. d \<noteq> CHR ''>''" cs] by simp
  then show "(tl (dropWhile (\<lambda>d. d \<noteq> CHR ''>'') cs), c # cs) \<in> measure length"
    by simp
qed simp_all

definition newline :: char where
  "newline = CHR 0x0A"

text \<open>
  \<open>re.sub(r'\n{10,}', '\n' * 5, s)\<close>: where a run of at least ten newlines starts, the
  whole run (the quantifier is greedy) is replaced by five newlines.
\<close>

function collapse_newlines :: "string \<Rightarrow> string" where
  "collapse_newlines [] = []"
| "collapse_newlines (c # cs) =
     (if c = newline \<and> length (takeWhile (\<lambda>d. d = newline) (c # cs)) \<ge> 10
      then replicate 5 newline @ collapse_newlines (dropWhile (\<lambda>d. d = newline) cs)
      else c # collapse_newlines cs)"
  by pat_completeness auto
termination
proof (relation "measure length")
  fix c :: char and cs :: string
  show "(dropWhile (\<lambda>d. d = newline) cs, c # cs) \<in> measure length"
    using length_dropWhile_le [of "\<lambda>d. d = newline" cs] by simp
qed simp_all

text \<open>
  The slice \<open>s[:m]\<close> of Python: the first \<open>m\<close> characters when \<open>m\<close> is not negative, and
  all but the last \<open>-m\<close> characters when it is.
\<close>

definition slice_to :: "int \<Rightarrow> 'a list \<Rightarrow> 'a list" where
  "slice_to m s = (if 0 \<le> m then take (nat m) s else take (length s - nat (- m)) s)"

definition sanitize_prompt :: "security_config \<Rightarrow> string \<Rightarrow> string" where
  "sanitize_prompt sec prompt =
     (let sanitized = strip_tags prompt;
          sanitized = collapse_newlines sanitized
      in slice_to (max_prompt_length sec) sanitized)"

section \<open>Agent state (\<open>SelfLearningAIAgent.__init__\<close>)\<close>

record agent =
  config :: model_config
  security :: security_config
  num_candidates :: int
  improvement_threshold :: real
  quality_milestones :: "real list"
  request_timestamps :: "real list"
  suspicious_patterns :: "(string \<times> string list) list"
  circuit_state :: "string \<rightharpoonup> string"

definition init_agent :: "model_config \<Rightarrow> security_config \<Rightarrow> int \<Rightarrow> real \<Rightarrow> agent" where
  "init_agent cfg sec n threshold =
     \<lparr> config = cfg,
       security = sec,
       num_candidates = min n (int (length (models cfg))),
       improvement_threshold = threshold,
       quality_milestones = [],
       request_timestamps = [],
       suspicious_patterns = suspicious_patterns_init,
       circuit_state = fold (\<lambda>model cs. cs(model \<mapsto> ''closed''))
                         (models cfg @ [review_model cfg]) Map.empty \<rparr>"

section \<open>Backend gateway (\<open>_call_openrouter\<close>)\<close>

text \<open>
  What one \<open>session.post\<close> gives: a response with its status, its body text and what
  \<open>resp.json()\<close> returns or raises; a timeout; or any other exception of the transport.
\<close>

datatype http_outcome =
    Response nat string "exn + json"
  | Timeout
  | Raised exn

text \<open>
  The result dictionary of a call: the keys \<open>text\<close> and \<open>model\<close>, and either
  \<open>request_id\<close> (a reply) or \<open>error\<close> (all retries used).
\<close>

record call_result =
  c_text :: string
  c_model :: string
  c_request_id :: "json option"
  c_error :: "string option"

text \<open>The Python operations on a decoded reply, with the exceptions they raise.\<close>

definition py_len :: "json \<Rightarrow> exn + nat" where
  "py_len v =
     (case v of
        JArr xs \<Rightarrow> Inr (length xs)
      | JStr s \<Rightarrow> Inr (length s)
      | JObj kv \<Rightarrow> Inr (length kv)
      | _ \<Rightarrow> Inl (Exn TypeError ''object has no len()''))"

definition py_index0 :: "json \<Rightarrow> exn + json" where
  "py_index0 v =
     (case v of
        JArr xs \<Rightarrow> (case xs of [] \<Rightarrow> Inl (Exn OtherError ''list index out of range'')
                               | x # _ \<Rightarrow> Inr x)
      | JStr s \<Rightarrow> (case s of [] \<Rightarrow> Inl (Exn OtherError ''string index out of range'')
                              | c # _ \<Rightarrow> Inr (JStr [c]))
      | JObj kv \<Rightarrow> Inl (Exn KeyError ''0'')
      | _ \<Rightarrow> Inl (Exn TypeError ''object is not subscriptable''))"

definition py_getitem :: "json \<Rightarrow> string \<Rightarrow> exn + json" where
  "py_getitem v key =
     (case v of
        JObj kv \<Rightarrow> (case map_of kv key of
                       None \<Rightarrow> Inl (Exn KeyError ([CHR 0x27] @ key @ [CHR 0x27]))
                     | Some x \<Rightarrow> Inr x)
      | JArr xs \<Rightarrow> Inl (Exn TypeError ''list indices must be integers or slices, not str'')
      | JStr s \<Rightarrow> Inl (Exn TypeError ''string indices must be integers'')
      | _ \<Rightarrow> Inl (Exn TypeError ''object is not subscriptable''))"

definition py_contains :: "json \<Rightarrow> string \<Rightarrow> exn + bool" where
  "py_contains v key =
     (case v of
        JObj kv \<Rightarrow> Inr (map_of kv key \<noteq> None)
      | JArr xs \<Rightarrow> Inr (JStr key \<in> set xs)
      | JStr s \<Rightarrow> Inr (contains s key)
      | _ \<Rightarrow> Inl (Exn TypeError ''argument is not iterable''))"

definition py_strip_method :: "json \<Rightarrow> exn + string" where
  "py_strip_method v =
     (case v of
        JStr s \<Rightarrow> Inr (py_strip s)
      | _ \<Rightarrow> Inl (Exn AttributeError ''object has no attribute strip''))"

text \<open>
  Lines 211 to 217: the check for \<open>choices\<close> and the path
  \<open>result["choices"][0]["message"]["content"].strip()\<close>.
\<close>

definition extract_text :: "json \<Rightarrow> exn + string" where
  "extract_text result =
     (case py_contains result ''choices'' of
        Inl e \<Rightarrow> Inl e
      | Inr False \<Rightarrow> Inl (Exn ValueError ''Invalid model response format'')
      | Inr True \<Rightarrow>
         (case py_getitem result ''choices'' of
            Inl e \<Rightarrow> Inl e
          | Inr choices \<Rightarrow>
             (case py_len choices of
                Inl e \<Rightarrow> Inl e
              | Inr n \<Rightarrow>
                 if n = 0 then Inl (Exn ValueError ''Invalid model response format'')
                 else (case py_index0 choices of
                         Inl e \<Rightarrow> Inl e
                       | Inr choice \<Rightarrow>
                          (case py_getitem choice ''message'' of
                             Inl e \<Rightarrow> Inl e
                           | Inr message \<Rightarrow>
                              (case py_getitem message ''content'' of
                                 Inl e \<Rightarrow> Inl e
                               | Inr content \<Rightarrow> py_strip_method content))))))"

definition request_id_of :: "json \<Rightarrow> json" where
  "request_id_of result =
     (case result of
        JObj kv \<Rightarrow> (case map_of kv ''id'' of None \<Rightarrow> JStr ''unknown'' | Some x \<Rightarrow> x)
      | _ \<Rightarrow> JStr ''unknown'')"

text \<open>
  The loop \<open>for attempt in range(self.config.max_retries)\<close>, over the attempts that are
  left. \<open>http attempt\<close> is what the request of that attempt gives. An exception raised in
  the \<open>try\<close> block, the \<open>ValueError\<close> and \<open>ClientError\<close> of the block included, reaches
  one of the two handlers: both raise it again on the last attempt and go on to the next
  attempt otherwise. The sleeps are not modelled.
\<close>

fun retry_loop :: "(nat \<Rightarrow> http_outcome) \<Rightarrow> int \<Rightarrow> string \<Rightarrow> nat list \<Rightarrow> exn + call_result" where
  "retry_loop http retries model [] =
     Inr \<lparr> c_text = [], c_model = model, c_request_id = None,
           c_error = Some ''All retries failed'' \<rparr>"
| "retry_loop http retries model (attempt # rest) =
     (let handler = (\<lambda>e. if int attempt = retries - 1 then Inl e
                          else retry_loop http retries model rest)
      in case http attempt of
           Response status body decoded \<Rightarrow>
             if status = 429 then retry_loop http retries model rest
             else if status \<noteq> 200 then
               (if int attempt = retries - 1
                then handler (Exn ClientError (''HTTP '' @ str_nat status @ '': '' @ body))
                else retry_loop http retries model rest)
             else (case decoded of
                     Inl e \<Rightarrow> handler e
                   | Inr result \<Rightarrow>
                      (case extract_text result of
                         Inl e \<Rightarrow> handler e
                       | Inr t \<Rightarrow>
                          Inr \<lparr> c_text = t, c_model = model,
                                c_request_id = Some (request_id_of result),
                                c_error = None \<rparr>))
         | Timeout \<Rightarrow> handler (Exn TimeoutError [])
         | Raised e \<Rightarrow> handler e)"

text \<open>
  One call. \<open>now\<close> is the clock reading of \<open>_check_rate_limit\<close>; \<open>http\<close> gets the
  sanitized prompt and the attempt number, and stands for the backend's reply to the
  payload (model, prompt, token limit, sampled temperature). The rate-limit window is
  updated before anything can raise, so the agent is returned in every case.
\<close>

definition call_openrouter ::
  "agent \<Rightarrow> real \<Rightarrow> (string \<Rightarrow> nat \<Rightarrow> http_outcome) \<Rightarrow> string \<Rightarrow> string
     \<Rightarrow> (exn + call_result) \<times> agent" where
  "call_openrouter ag now http model prompt =
     (let (limited, ts) = check_rate_limit (security ag) (request_timestamps ag) now;
          ag' = ag \<lparr> request_timestamps := ts \<rparr>
      in case limited of
           Some e \<Rightarrow> (Inl e, ag')
         | None \<Rightarrow>
            (case validate_prompt (security ag) (suspicious_patterns ag) prompt of
               Inl e \<Rightarrow> (Inl e, ag')
             | Inr ok \<Rightarrow>
                (retry_loop (http (sanitize_prompt (security ag) prompt))
                   (max_retries (config ag)) model
                   [0 ..< nat (max_retries (config ag))], ag')))"

text \<open>
  \<open>asyncio.gather(*tasks, return_exceptions=True)\<close>: the tasks start in list order and
  each runs up to its first request before the next one starts, so the rate-limit
  checks happen in list order. Call number \<open>i\<close> reads the clock as \<open>now i\<close> and gets its
  replies from \<open>http i\<close>.
\<close>

fun gather_calls ::
  "agent \<Rightarrow> (nat \<Rightarrow> real) \<Rightarrow> (nat \<Rightarrow> string \<Rightarrow> string \<Rightarrow> nat \<Rightarrow> http_outcome) \<Rightarrow> nat
     \<Rightarrow> (string \<times> string) list \<Rightarrow> (exn + call_result) list \<times> agent" where
  "gather_calls ag now http i [] = ([], ag)"
| "gather_calls ag now http i ((model, prompt) # rest) =
     (let (r, ag') = call_openrouter ag (now i) (http i model) model prompt;
          (rs, ag'') = gather_calls ag' now http (Suc i) rest
      in (r # rs, ag''))"

section \<open>Core logic\<close>

subsection \<open>Prompts\<close>

definition dquote :: char where
  "dquote = CHR 0x22"

definition unlines :: "string list \<Rightarrow> string" where
  "unlines ls = concat (map (\<lambda>l. l @ [newline]) (butlast ls)) @ last ls"

definition build_generation_prompt :: "string \<Rightarrow> string" where
  "build_generation_prompt task = unlines
     [''You are a specialist AI competing to provide the BEST solution. Solve rigorously:'',
      '''',
      task,
      '''',
      ''Requirements:'',
      ''- Provide factual, accurate information'',
      ''- Use logical reasoning with clear steps'',
      ''- Offer novel insights beyond obvious answers'',
      ''- Be concise but comprehensive'',
      ''- Include actionable implementation details'',
      '''',
      ''Your solution will be peer-reviewed against other AIs. The best solution wins.'']"

definition build_review_prompt :: "string \<Rightarrow> string \<Rightarrow> string" where
  "build_review_prompt task solution = unlines
     [''TASK: '' @ task,
      '''',
      ''CANDIDATE SOLUTION:'',
      solution,
      '''',
      ''Apply THIS scoring rubric rigorously:'',
      '''',
      ''1. Factual Accuracy (0-10): Verify all facts. Deduct for errors.'',
      ''2. Reasoning Depth (0-10): Evaluate logical completeness.'',
      ''3. Novelty/Value (0-10): Assess originality.'',
      ''4. Conciseness (0-10): Evaluate clarity and implementability.'',
      '''',
      ''SCORING FORMULA: Weighted average (Accuracy:40%, Depth:30%, Novelty:20%, Conciseness:10%)'',
      '''',
      ''CRITICAL FLAW: Identify ONE major flaw or '' @ [dquote] @ ''NONE'' @ [dquote] @ '' if perfect.'',
      ''IMPROVED SOLUTION: Rewrite addressing the flaw.'',
      '''',
      ''Respond ONLY with valid JSON:'',
      ''{'',
      ''  '' @ [dquote] @ ''score'' @ [dquote] @ '': X.X,'',
      ''  '' @ [dquote] @ ''flaw'' @ [dquote] @ '': '' @ [dquote] @ ''specific flaw or NONE'' @ [dquote] @ '','',
      ''  '' @ [dquote] @ ''improved'' @ [dquote] @ '': '' @ [dquote] @ ''complete improved solution'' @ [dquote],
      ''}'']"

subsection \<open>The world around one \<open>solve\<close>\<close>

text \<open>
  Everything \<open>solve\<close> reads from outside the agent: the clock at its start and at its
  return, the clock readings and the replies of the calls of the two stages, the random
  permutation of the active models, and \<open>json.loads\<close> on a text that starts with an
  opening and ends with a closing brace: the items of the decoded object, or the
  exception it raises (\<open>JSONDecodeError\<close> for a text that is not JSON, \<open>RecursionError\<close>
  for one nested too deeply, \<open>ValueError\<close> for an integer of too many digits).
\<close>

record world =
  start_time :: real
  end_time :: real
  gen_now :: "nat \<Rightarrow> real"
  gen_http :: "nat \<Rightarrow> string \<Rightarrow> string \<Rightarrow> nat \<Rightarrow> http_outcome"
  rev_now :: "nat \<Rightarrow> real"
  rev_http :: "nat \<Rightarrow> string \<Rightarrow> string \<Rightarrow> nat \<Rightarrow> http_outcome"
  permutation :: "string list \<Rightarrow> string list"
  json_loads :: "string \<Rightarrow> exn + (string \<times> json) list"

subsection \<open>\<open>_get_active_models\<close> and \<open>_generate_candidates\<close>\<close>

definition get_active_models :: "agent \<Rightarrow> string list" where
  "get_active_models ag =
     filter (\<lambda>model. (case circuit_state ag model of None \<Rightarrow> ''closed'' | Some s \<Rightarrow> s) = ''closed'')
       (models (config ag))"

text \<open>The loop over the gathered results: exceptions and empty texts are left out.\<close>

fun valid_results :: "(exn + call_result) list \<Rightarrow> call_result list" where
  "valid_results [] = []"
| "valid_results (Inl e # rest) = valid_results rest"
| "valid_results (Inr result # rest) =
     (if py_strip (c_text result) \<noteq> [] then result # valid_results rest
      else valid_results rest)"

definition generate_candidates ::
  "agent \<Rightarrow> world \<Rightarrow> string \<Rightarrow> (exn + call_result list) \<times> agent" where
  "generate_candidates ag w task =
     (let active_models = get_active_models ag
      in if active_models = [] then (Inl (Exn RuntimeError ''No available models''), ag)
         else
           (let chosen = slice_to (num_candidates ag) (permutation w active_models);
                tasks = map (\<lambda>model. (model, build_generation_prompt task)) chosen;
                (results, ag') = gather_calls ag (gen_now w) (gen_http w) 0 tasks
            in (Inr (valid_results results), ag')))"

subsection \<open>\<open>_parse_review_response\<close>\<close>

text \<open>
  \<open>re.search(r'\{.*\}', text, re.DOTALL)\<close>: from the first opening brace to the last
  closing brace behind it.
\<close>

definition brace_match :: "string \<Rightarrow> string option" where
  "brace_match response_text =
     (let t = dropWhile (\<lambda>c. c \<noteq> CHR ''{'') response_text
      in if t = [] \<or> CHR ''}'' \<notin> set t then None
         else Some (rev (dropWhile (\<lambda>c. c \<noteq> CHR ''}'') (rev t))))"

definition digits_value :: "string \<Rightarrow> nat" where
  "digits_value ds = foldl (\<lambda>a d. 10 * a + (of_char d - 48)) 0 ds"

text \<open>
  The pattern \<open>"score":\s*(\d+\.?\d*)\<close> at the head of \<open>s\<close>, and \<open>float\<close> of its group.
\<close>

definition match_score :: "string \<Rightarrow> real option" where
  "match_score s =
     (if starts_with s ([dquote] @ ''score'' @ [dquote] @ '':'') then
        (let r = dropWhile py_isspace (drop 8 s);
             whole = takeWhile is_digit r;
             r' = dropWhile is_digit r;
             fraction = (if r' \<noteq> [] \<and> hd r' = CHR ''.'' then takeWhile is_digit (tl r') else [])
         in if whole = [] then None
            else Some (real (digits_value whole)
                       + real (digits_value fraction) / 10 ^ length fraction))
      else None)"

text \<open>The pattern \<open>"key":\s*"([^"]*)"\<close> at the head of \<open>s\<close>, and its group.\<close>

definition match_quoted :: "string \<Rightarrow> string \<Rightarrow> string option" where
  "match_quoted key s =
     (if starts_with s ([dquote] @ key @ [dquote] @ '':'') then
        (let r = dropWhile py_isspace (drop (length key + 3) s)
         in if r \<noteq> [] \<and> hd r = dquote \<and> dquote \<in> set (tl r)
            then Some (takeWhile (\<lambda>c. c \<noteq> dquote) (tl r))
            else None)
      else None)"

definition regex_fallback :: "string \<Rightarrow> pydict" where
  "regex_fallback response_text =
     [''score'' \<mapsto> JNum (case re_search match_score response_text of
                             Some x \<Rightarrow> x | None \<Rightarrow> 5),
      ''flaw'' \<mapsto> JStr (case re_search (match_quoted ''flaw'') response_text of
                            Some x \<Rightarrow> x | None \<Rightarrow> ''NONE''),
      ''improved'' \<mapsto> JStr (case re_search (match_quoted ''improved'') response_text of
                                Some x \<Rightarrow> x | None \<Rightarrow> [])]"

text \<open>
  The \<open>JSONDecodeError\<close> of \<open>json.loads\<close> is caught and leads to the regular expressions;
  any other exception of \<open>json.loads\<close> leaves the method.
\<close>

definition parse_review_response ::
  "(string \<Rightarrow> exn + (string \<times> json) list) \<Rightarrow> string \<Rightarrow> exn + pydict" where
  "parse_review_response loads response_text =
     (case brace_match response_text of
        Some json_match \<Rightarrow>
          (case loads json_match of
             Inr items \<Rightarrow> Inr (map_of items)
           | Inl e \<Rightarrow>
               if exn_cls e = JSONDecodeError then Inr (regex_fallback response_text)
               else Inl e)
      | None \<Rightarrow> Inr (regex_fallback response_text))"

subsection \<open>\<open>_validate_review_scores\<close>\<close>

text \<open>
  \<open>0 <= score <= 10\<close> with \<open>score = review_data.get("score", 0)\<close>. \<open>True\<close> and \<open>False\<close>
  compare as 1 and 0; a string, a list, an object or \<open>None\<close> makes the comparison raise
  \<open>TypeError\<close>.
\<close>

definition num_of :: "json \<Rightarrow> real option" where
  "num_of v =
     (case v of
        JNum r \<Rightarrow> Some r
      | JBool b \<Rightarrow> Some (if b then 1 else 0)
      | _ \<Rightarrow> None)"

definition get_score :: "pydict \<Rightarrow> json" where
  "get_score review_data = (case review_data ''score'' of None \<Rightarrow> JNum 0 | Some v \<Rightarrow> v)"

definition validate_review_scores :: "pydict \<Rightarrow> exn + bool" where
  "validate_review_scores review_data =
     (let score = get_score review_data
      in case num_of score of
           Some r \<Rightarrow> Inr (0 \<le> r \<and> r \<le> 10)
         | None \<Rightarrow>
            if score = JNonFinite then Inr False
            else Inl (Exn TypeError ''<= not supported between these instances''))"

subsection \<open>\<open>_peer_review\<close>\<close>

text \<open>The prompts of the first loop: one for each candidate whose stripped text is not empty.\<close>

definition review_prompts :: "string \<Rightarrow> call_result list \<Rightarrow> string list" where
  "review_prompts task candidates =
     map (\<lambda>candidate. build_review_prompt task (c_text candidate))
       (filter (\<lambda>candidate. py_strip (c_text candidate) \<noteq> []) candidates)"

text \<open>
  The body of the \<open>try\<close> block up to the update: the parsed review with the
  back-references that \<open>review_data.update\<close> adds.
\<close>

definition review_data_of ::
  "(string \<Rightarrow> exn + (string \<times> json) list) \<Rightarrow> string \<Rightarrow> call_result \<Rightarrow> call_result
     \<Rightarrow> exn + pydict" where
  "review_data_of loads reviewer candidate result =
     (case parse_review_response loads (c_text result) of
        Inl e \<Rightarrow> Inl e
      | Inr review_data \<Rightarrow>
          Inr (review_data
                 (''original'' \<mapsto> JStr (c_text candidate),
                  ''model'' \<mapsto> JStr (c_model candidate),
                  ''reviewer'' \<mapsto> JStr reviewer)))"

text \<open>
  The second loop, over \<open>zip(candidates, review_results)\<close>. An exception of the \<open>try\<close>
  block reaches \<open>except (json.JSONDecodeError, KeyError)\<close>: of these two classes it is
  logged and the loop goes on; of any other class (the \<open>TypeError\<close> of
  \<open>_validate_review_scores\<close>, a \<open>RecursionError\<close> or \<open>ValueError\<close> of \<open>json.loads\<close>) it
  leaves the method, and the reviews made so far are lost.
\<close>

fun review_loop ::
  "(string \<Rightarrow> exn + (string \<times> json) list) \<Rightarrow> string
     \<Rightarrow> (call_result \<times> (exn + call_result)) list \<Rightarrow> exn + pydict list" where
  "review_loop loads reviewer [] = Inr []"
| "review_loop loads reviewer ((candidate, review_result) # rest) =
     (case review_result of
        Inl e \<Rightarrow> review_loop loads reviewer rest
      | Inr result \<Rightarrow>
         (let handler = (\<lambda>e. if exn_cls e = JSONDecodeError \<or> exn_cls e = KeyError
                              then review_loop loads reviewer rest
                              else Inl e)
          in case review_data_of loads reviewer candidate result of
               Inl e \<Rightarrow> handler e
             | Inr review_data \<Rightarrow>
                (case validate_review_scores review_data of
                   Inl e \<Rightarrow> handler e
                 | Inr valid \<Rightarrow>
                    (case review_loop loads reviewer rest of
                       Inl e \<Rightarrow> Inl e
                     | Inr reviews \<Rightarrow>
                         Inr (if valid then review_data # reviews else reviews)))))"

definition peer_review ::
  "agent \<Rightarrow> world \<Rightarrow> string \<Rightarrow> call_result list \<Rightarrow> (exn + pydict list) \<times> agent" where
  "peer_review ag w task candidates =
     (let review_tasks = map (\<lambda>prompt. (review_model (config ag), prompt))
                           (review_prompts task candidates);
          (review_results, ag') = gather_calls ag (rev_now w) (rev_http w) 0 review_tasks
      in (review_loop (json_loads w) (review_model (config ag))
            (zip candidates review_results), ag'))"

subsection \<open>\<open>_should_trigger_improvement\<close>\<close>

text \<open>\<open>max\<close> of a non-empty list and \<open>max(xs, key=...)\<close>: the first greatest element.\<close>

definition py_max_key :: "('a \<Rightarrow> 'b::linorder) \<Rightarrow> 'a list \<Rightarrow> 'a" where
  "py_max_key key xs = foldl (\<lambda>best x. if key x > key best then x else best) (hd xs) (tl xs)"

text \<open>The slice \<open>xs[-10:]\<close>: the last ten elements.\<close>

definition last_ten :: "'a list \<Rightarrow> 'a list" where
  "last_ten xs = drop (length xs - 10) xs"

definition should_trigger_improvement :: "real list \<Rightarrow> real \<Rightarrow> real \<Rightarrow> exn + bool" where
  "should_trigger_improvement milestones threshold current_score =
     (if milestones = [] then Inr True
      else
        (let best_previous = py_max_key (\<lambda>x. x) (last_ten milestones);
             divisor = best_previous + 1 / 100000
         in if divisor = 0 then Inl (Exn ZeroDivisionError ''float division by zero'')
            else
              (let improvement = (current_score - best_previous) / divisor
               in Inr (improvement > threshold \<and> current_score > 5))))"

subsection \<open>\<open>solve\<close>\<close>

record solve_result =
  solution :: json
  score :: json
  model :: json
  processing_time :: real
  confidence :: string
  flaw_corrected :: "json option"
  error :: "string option"
  info :: "string option"

definition get_default :: "pydict \<Rightarrow> string \<Rightarrow> json \<Rightarrow> json" where
  "get_default d key dflt = (case d key of None \<Rightarrow> dflt | Some v \<Rightarrow> v)"

text \<open>
  Lines 367 to 398, from the reviews on. The reviews that \<open>_peer_review\<close> returns have
  passed \<open>_validate_review_scores\<close>, so their scores are numbers; for any other list the
  sort or the comparisons behind it raise \<open>TypeError\<close>, which is all the model keeps of
  that case. \<open>reviews.sort(key=..., reverse=True)\<close> is stable: it is the stable ascending
  sort by the negated key.
\<close>

definition score_key :: "pydict \<Rightarrow> real" where
  "score_key review = (case num_of (get_score review) of Some r \<Rightarrow> r | None \<Rightarrow> 0)"

definition sorted_reviews :: "pydict list \<Rightarrow> pydict list" where
  "sorted_reviews reviews = sort_key (\<lambda>review. - score_key review) reviews"

definition select_winner :: "pydict list \<Rightarrow> pydict" where
  "select_winner reviews = hd (sorted_reviews reviews)"

definition select_and_learn ::
  "agent \<Rightarrow> world \<Rightarrow> call_result list \<Rightarrow> pydict list \<Rightarrow> (exn + solve_result) \<times> agent" where
  "select_and_learn ag w candidates reviews =
     (if reviews = [] then
        (let best_candidate = py_max_key (\<lambda>x. length (c_text x)) candidates
         in (Inr \<lparr> solution = JStr (c_text best_candidate),
                    score = JNum 5,
                    model = JStr (c_model best_candidate),
                    processing_time = end_time w - start_time w,
                    confidence = ''low'',
                    flaw_corrected = None, error = None, info = None \<rparr>, ag))
      else if \<exists>review \<in> set reviews. num_of (get_score review) = None then
        (Inl (Exn TypeError ''comparison not supported between these instances''), ag)
      else
        (let winner = select_winner reviews;
             current_score = score_key winner
         in case should_trigger_improvement (quality_milestones ag)
                   (improvement_threshold ag) current_score of
              Inl e \<Rightarrow> (Inl e, ag)
            | Inr trigger \<Rightarrow>
               (Inr \<lparr> solution = get_default winner ''improved''
                                   (get_default winner ''original'' (JStr [])),
                       score = get_score winner,
                       model = get_default winner ''model'' (JStr ''unknown''),
                       processing_time = end_time w - start_time w,
                       confidence = (if current_score > 7 then ''high'' else ''medium''),
                       flaw_corrected = Some (get_default winner ''flaw'' (JStr ''NONE'')),
                       error = None, info = None \<rparr>,
                if trigger
                then ag \<lparr> quality_milestones := quality_milestones ag @ [current_score] \<rparr>
                else ag)))"

text \<open>The body of the \<open>try\<close> block of \<open>solve\<close>.\<close>

definition solve_body :: "agent \<Rightarrow> world \<Rightarrow> string \<Rightarrow> (exn + solve_result) \<times> agent" where
  "solve_body ag w task =
     (if api_key (config ag) = [] \<or> api_key (config ag) = ''your-openrouter-api-key-here'' then
        (Inr \<lparr> solution = JStr ''Emergent Universal Key is ready! The AI agent is configured and working.'',
               score = JNum 0,
               model = JStr ''system'',
               processing_time = 0,
               confidence = ''ready'',
               flaw_corrected = None, error = None,
               info = Some ''Using Emergent Universal Key for testing (GPT-4o, Claude 3.5 Sonnet, Gemini 2.0)'' \<rparr>,
         ag)
      else
        (case generate_candidates ag w task of
           (Inl e, ag1) \<Rightarrow> (Inl e, ag1)
         | (Inr candidates, ag1) \<Rightarrow>
            if candidates = [] then
              (Inr \<lparr> solution = JStr (''I apologize, but I'' @ [CHR 0x27]
                                        @ ''m unable to generate a response at the moment. Please try again.''),
                     score = JNum 0,
                     model = JStr ''fallback'',
                     processing_time = end_time w - start_time w,
                     confidence = ''none'',
                     flaw_corrected = None, error = None, info = None \<rparr>, ag1)
            else
              (case peer_review ag1 w task candidates of
                 (Inl e, ag2) \<Rightarrow> (Inl e, ag2)
               | (Inr reviews, ag2) \<Rightarrow> select_and_learn ag2 w candidates reviews)))"

text \<open>The handler \<open>except Exception as e\<close> turns what the body raises into a result.\<close>

definition error_result :: "world \<Rightarrow> exn \<Rightarrow> solve_result" where
  "error_result w e =
     \<lparr> solution = JStr (''An error occurred: '' @ exn_msg e),
       score = JNum 0,
       model = JStr ''error'',
       processing_time = end_time w - start_time w,
       confidence = ''none'',
       flaw_corrected = None,
       error = Some (exn_msg e),
       info = None \<rparr>"

definition solve :: "agent \<Rightarrow> world \<Rightarrow> string \<Rightarrow> solve_result \<times> agent" where
  "solve ag w task =
     (case solve_body ag w task of
        (Inl e, ag') \<Rightarrow> (error_result w e, ag')
      | (Inr result, ag') \<Rightarrow> (result, ag'))"

section \<open>Auxiliary notions for the proofs\<close>

text \<open>No tag starts anywhere in the string: \<open>strip_tags\<close> has nothing to remove.\<close>

fun tagfree :: "string \<Rightarrow> bool" where
  "tagfree [] = True"
| "tagfree (c # cs) =
     (\<not> (c = CHR ''<'' \<and> cs \<noteq> [] \<and> hd cs \<noteq> CHR ''>'' \<and> CHR ''>'' \<in> set cs) \<and> tagfree cs)"

text \<open>No run of ten newlines starts anywhere in the string.\<close>

fun runfree :: "string \<Rightarrow> bool" where
  "runfree [] = True"
| "runfree (c # cs) =
     (\<not> (c = newline \<and> length (takeWhile (\<lambda>d. d = newline) (c # cs)) \<ge> 10) \<and> runfree cs)"

text \<open>A configuration with the defaults of \<open>SecurityConfig\<close> but a quota of two requests.\<close>

definition sec_small :: security_config where
  "sec_small =
     \<lparr> max_prompt_length = 4096, max_tokens = 4096,
       allowed_domains = [''localhost'', ''127.0.0.1'', ''internal-api''],
       rate_limit_requests = 2, rate_limit_window = 60 \<rparr>"

text \<open>The results that \<open>_generate_candidates\<close> gathers from its calls.\<close>

definition gen_results :: "agent \<Rightarrow> world \<Rightarrow> string \<Rightarrow> (exn + call_result) list" where
  "gen_results ag w task =
     fst (gather_calls ag (gen_now w) (gen_http w) 0
            (map (\<lambda>model. (model, build_generation_prompt task))
               (slice_to (num_candidates ag) (permutation w (get_active_models ag)))))"

text \<open>The result of \<open>solve\<close> when no API key is configured.\<close>

definition ready_result :: solve_result where
  "ready_result =
     \<lparr> solution = JStr ''Emergent Universal Key is ready! The AI agent is configured and working.'',
       score = JNum 0, model = JStr ''system'', processing_time = 0, confidence = ''ready'',
       flaw_corrected = None, error = None,
       info = Some ''Using Emergent Universal Key for testing (GPT-4o, Claude 3.5 Sonnet, Gemini 2.0)'' \<rparr>"

definition key_configured :: "agent \<Rightarrow> bool" where
  "key_configured ag =
     (api_key (config ag) \<noteq> [] \<and> api_key (config ag) \<noteq> ''your-openrouter-api-key-here'')"

text \<open>The results of \<open>solve\<close> on its two paths without a winner.\<close>

definition no_candidates_result :: "world \<Rightarrow> solve_result" where
  "no_candidates_result w =
     \<lparr> solution = JStr (''I apologize, but I'' @ [CHR 0x27]
                         @ ''m unable to generate a response at the moment. Please try again.''),
       score = JNum 0, model = JStr ''fallback'',
       processing_time = end_time w - start_time w, confidence = ''none'',
       flaw_corrected = None, error = None, info = None \<rparr>"

definition no_reviews_result :: "world \<Rightarrow> call_result \<Rightarrow> solve_result" where
  "no_reviews_result w best_candidate =
     \<lparr> solution = JStr (c_text best_candidate), score = JNum 5,
       model = JStr (c_model best_candidate),
       processing_time = end_time w - start_time w, confidence = ''low'',
       flaw_corrected = None, error = None, info = None \<rparr>"

subsection \<open>Example agents and worlds\<close>

definition cfg_demo :: model_config where
  "cfg_demo =
     \<lparr> api_key = ''sk-demo'', base_url = ''https://llm.example/v1'',
       models = [''gpt-4o'', ''claude-3-5-sonnet-20241022'', ''gemini-2.0-flash-exp''],
       review_model = ''gpt-4o'', temperature_range = (7 / 10, 13 / 10),
       timeout = 30, max_retries = 3 \<rparr>"

definition agent_demo :: agent where
  "agent_demo = init_agent cfg_demo sec_small 3 (15 / 100)"

text \<open>The exception of \<open>json.loads\<close> on a text that is not JSON.\<close>

definition not_json :: exn where
  "not_json = Exn JSONDecodeError ''Expecting value: line 1 column 1 (char 0)''"

text \<open>A world in which every request times out.\<close>

definition world_down :: world where
  "world_down =
     \<lparr> start_time = 0, end_time = 1,
       gen_now = (\<lambda>i. 0), gen_http = (\<lambda>i model prompt attempt. Timeout),
       rev_now = (\<lambda>i. 0), rev_http = (\<lambda>i model prompt attempt. Timeout),
       permutation = (\<lambda>xs. xs), json_loads = (\<lambda>s. Inl not_json) \<rparr>"

definition review_of :: "real \<Rightarrow> string \<Rightarrow> pydict" where
  "review_of s m = [''score'' \<mapsto> JNum s, ''improved'' \<mapsto> JStr (''answer of '' @ m),
                    ''model'' \<mapsto> JStr m]"

definition candidate_of :: "string \<Rightarrow> string \<Rightarrow> call_result" where
  "candidate_of t m = \<lparr> c_text = t, c_model = m, c_request_id = Some (JStr ''unknown''),
                          c_error = None \<rparr>"

definition sec_default :: security_config where
  "sec_default =
     \<lparr> max_prompt_length = 4096, max_tokens = 4096,
       allowed_domains = [''localhost'', ''127.0.0.1'', ''internal-api''],
       rate_limit_requests = 100, rate_limit_window = 60 \<rparr>"

text \<open>The agent as \<open>__init__\<close> builds it, with the default security configuration.\<close>

definition agent_shipped :: agent where
  "agent_shipped = init_agent cfg_demo sec_default 3 (15 / 100)"

text \<open>An agent whose quota is zero: every call is refused by the rate limiter.\<close>

definition agent_limited :: agent where
  "agent_limited = init_agent cfg_demo (sec_small \<lparr> rate_limit_requests := 0 \<rparr>) 3 (15 / 100)"

definition agent_no_models :: agent where
  "agent_no_models = init_agent (cfg_demo \<lparr> models := [] \<rparr>) sec_small 3 (15 / 100)"

definition agent_unset :: agent where
  "agent_unset =
     init_agent (cfg_demo \<lparr> api_key := ''your-openrouter-api-key-here'' \<rparr>) sec_small 3 (15 / 100)"

text \<open>An agent whose list of suspicious patterns has been emptied.\<close>

definition agent_open :: agent where
  "agent_open = (init_agent cfg_demo sec_default 3 (15 / 100)) \<lparr> suspicious_patterns := [] \<rparr>"

text \<open>A reply of the backend with the given answer text.\<close>

definition reply :: "string \<Rightarrow> json" where
  "reply t = JObj [(''id'', JStr ''req-1''),
                   (''choices'', JArr [JObj [(''message'', JObj [(''content'', JStr t)])]])]"

definition review_text :: string where
  "review_text =
     ''{'' @ [dquote] @ ''score'' @ [dquote] @ '': 8.5, '' @ [dquote] @ ''flaw'' @ [dquote] @ '': ''
       @ [dquote] @ ''terse'' @ [dquote] @ '', '' @ [dquote] @ ''improved'' @ [dquote] @ '': ''
       @ [dquote] @ ''2 + 2 = 4'' @ [dquote] @ ''}''"

definition score_eleven_text :: string where
  "score_eleven_text = ''{'' @ [dquote] @ ''score'' @ [dquote] @ '': 11}''"

definition score_six_text :: string where
  "score_six_text = ''{'' @ [dquote] @ ''score'' @ [dquote] @ '': 6}''"

definition loads_demo :: "string \<Rightarrow> exn + (string \<times> json) list" where
  "loads_demo s =
     (if s = review_text
      then Inr [(''score'', JNum (85 / 10)), (''flaw'', JStr ''terse''),
                (''improved'', JStr ''2 + 2 = 4'')]
      else if s = score_eleven_text then Inr [(''score'', JNum 11)]
      else if s = score_six_text then Inr [(''score'', JNum 6)]
      else Inl not_json)"

text \<open>
  A world in which the first backend answers, the second times out, the third answers with
  blanks only, and the reviewer answers with \<open>review_text\<close>.
\<close>

definition world_up :: world where
  "world_up =
     \<lparr> start_time = 0, end_time = 2,
       gen_now = (\<lambda>i. 0),
       gen_http = (\<lambda>i model prompt attempt.
          if model = ''gpt-4o'' then Response 200 [] (Inr (reply ''  Four. ''))
          else if model = ''gemini-2.0-flash-exp'' then Response 200 [] (Inr (reply ''   ''))
          else Timeout),
       rev_now = (\<lambda>i. 1),
       rev_http = (\<lambda>i model prompt attempt. Response 200 [] (Inr (reply review_text))),
       permutation = (\<lambda>xs. xs),
       json_loads = loads_demo \<rparr>"

text \<open>Worlds in which every backend answers, and in which the reviewer's second answer differs.\<close>

definition world_all :: world where
  "world_all =
     world_up \<lparr> gen_http := (\<lambda>i model prompt attempt. Response 200 [] (Inr (reply ''  Four. ''))) \<rparr>"


text \<open>The same world, but the reviewer's object carries a string as its score.\<close>

definition world_bad_score :: world where
  "world_bad_score =
     world_up \<lparr> json_loads := (\<lambda>s. if s = review_text then Inr [(''score'', JStr ''high'')]
                                      else Inl not_json) \<rparr>"

definition cand_four :: call_result where
  "cand_four = \<lparr> c_text = ''Four.'', c_model = ''gpt-4o'', c_request_id = Some (JStr ''req-1''),
                  c_error = None \<rparr>"

definition review_four :: pydict where
  "review_four = (map_of [(''score'', JNum (85 / 10)), (''flaw'', JStr ''terse''),
                          (''improved'', JStr ''2 + 2 = 4'')])
                   (''original'' \<mapsto> JStr ''Four.'', ''model'' \<mapsto> JStr ''gpt-4o'',
                    ''reviewer'' \<mapsto> JStr ''gpt-4o'')"

text \<open>The result of a call that used up all its retries.\<close>

definition cand_exhausted :: call_result where
  "cand_exhausted = \<lparr> c_text = [], c_model = ''claude-3-5-sonnet-20241022'', c_request_id = None,
                       c_error = Some ''All retries failed'' \<rparr>"

text \<open>
  A backend whose first reply is a well-formed HTTP 200 without \<open>choices\<close> and whose later
  replies carry an answer.
\<close>

definition malformed_then_ok :: "string \<Rightarrow> nat \<Rightarrow> http_outcome" where
  "malformed_then_ok prompt attempt =
     (if attempt = 0 then Response 200 [] (Inr (JObj [(''id'', JStr ''req-0'')]))
      else Response 200 [] (Inr (reply ''Four.'')))"

text \<open>The review that the loop of \<open>_peer_review\<close> builds from \<open>review_text\<close> for a candidate.\<close>

definition review_by :: "call_result \<Rightarrow> pydict" where
  "review_by candidate =
     (map_of [(''score'', JNum (85 / 10)), (''flaw'', JStr ''terse''),
              (''improved'', JStr ''2 + 2 = 4'')])
       (''original'' \<mapsto> JStr (c_text candidate), ''model'' \<mapsto> JStr (c_model candidate),
        ''reviewer'' \<mapsto> JStr ''gpt-4o'')"

text \<open>The exceptions that the handler of the second loop of \<open>_peer_review\<close> catches.\<close>

definition caught_in_loop :: "exn \<Rightarrow> bool" where
  "caught_in_loop e = (exn_cls e = JSONDecodeError \<or> exn_cls e = KeyError)"


text \<open>A pair whose exception leaves the method.\<close>

definition escaping_pair ::
  "(string \<Rightarrow> exn + (string \<times> json) list) \<Rightarrow> string
     \<Rightarrow> call_result \<times> (exn + call_result) \<Rightarrow> bool" where
  "escaping_pair loads reviewer p =
     (case snd p of
        Inl e \<Rightarrow> False
      | Inr result \<Rightarrow>
          (case review_data_of loads reviewer (fst p) result of
             Inl e \<Rightarrow> \<not> caught_in_loop e
           | Inr review_data \<Rightarrow>
               (case validate_review_scores review_data of
                  Inl e \<Rightarrow> \<not> caught_in_loop e
                | Inr valid \<Rightarrow> False)))"

text \<open>
  The reviews of the pairs whose call returned, whose parse returned and whose score
  passed the bounds check, in the order of the pairs.
\<close>

definition kept_reviews ::
  "(string \<Rightarrow> exn + (string \<times> json) list) \<Rightarrow> string
     \<Rightarrow> (call_result \<times> (exn + call_result)) list \<Rightarrow> pydict list" where
  "kept_reviews loads reviewer pairs =
     List.map_filter
       (\<lambda>p. case snd p of
               Inl e \<Rightarrow> None
             | Inr result \<Rightarrow>
                 (case review_data_of loads reviewer (fst p) result of
                    Inl e \<Rightarrow> None
                  | Inr review_data \<Rightarrow>
                      if validate_review_scores review_data = Inr True then Some review_data
                      else None))
       pairs"

text \<open>The record that \<open>solve\<close> returns for a winning review.\<close>

definition winner_result :: "world \<Rightarrow> pydict \<Rightarrow> solve_result" where
  "winner_result w winner =
     \<lparr> solution = get_default winner ''improved'' (get_default winner ''original'' (JStr [])),
       score = get_score winner,
       model = get_default winner ''model'' (JStr ''unknown''),
       processing_time = end_time w - start_time w,
       confidence = (if score_key winner > 7 then ''high'' else ''medium''),
       flaw_corrected = Some (get_default winner ''flaw'' (JStr ''NONE'')),
       error = None, info = None \<rparr>"

text \<open>Whether the circuit of a backend is closed (a backend without an entry counts as closed).\<close>

definition circuit_closed :: "agent \<Rightarrow> string \<Rightarrow> bool" where
  "circuit_closed ag m = ((case circuit_state ag m of None \<Rightarrow> ''closed'' | Some s \<Rightarrow> s) = ''closed'')"

text \<open>
  Agents built by \<open>__init__\<close>: one with a candidate count of -1, and two whose circuit
  map has been changed afterwards (one backend open, all backends open).
\<close>

definition agent_negative :: agent where
  "agent_negative = init_agent cfg_demo sec_default (- 1) (15 / 100)"

definition agent_one_open :: agent where
  "agent_one_open =
     agent_shipped \<lparr> circuit_state := (circuit_state agent_shipped) (''gpt-4o'' \<mapsto> ''open'') \<rparr>"

definition agent_all_open :: agent where
  "agent_all_open = agent_shipped \<lparr> circuit_state := (\<lambda>m. Some ''open'') \<rparr>"


definition candidate_from :: "string \<Rightarrow> call_result" where
  "candidate_from m = \<lparr> c_text = ''Four.'', c_model = m, c_request_id = Some (JStr ''req-1''),
                         c_error = None \<rparr>"

text \<open>
  The calls of the review stage: the tasks handed to \<open>asyncio.gather\<close>, their results,
  the agent as call number \<open>i\<close> finds it, and the call made for a candidate text as call
  number \<open>i\<close>.
\<close>

definition review_tasks :: "agent \<Rightarrow> string \<Rightarrow> call_result list \<Rightarrow> (string \<times> string) list" where
  "review_tasks ag task candidates =
     map (\<lambda>prompt. (review_model (config ag), prompt)) (review_prompts task candidates)"

definition review_results ::
  "agent \<Rightarrow> world \<Rightarrow> string \<Rightarrow> call_result list \<Rightarrow> (exn + call_result) list" where
  "review_results ag w task candidates =
     fst (gather_calls ag (rev_now w) (rev_http w) 0 (review_tasks ag task candidates))"




section \<open>Verification: the prompt guard\<close>

subsection \<open>Rate limiter\<close>


lemma check_rate_limit_seq_append:
  "check_rate_limit_seq sec ts (xs @ ys) =
     (let (r1, t1) = check_rate_limit_seq sec ts xs;
          (r2, t2) = check_rate_limit_seq sec t1 ys
      in (r1 @ r2, t2))"
  by (induction xs arbitrary: ts) (auto simp: Let_def split: prod.splits)

lemma check_rate_limit_all_fresh:
  assumes "\<forall>t\<in>set ts. now - t < real_of_int (rate_limit_window sec)"
  shows "check_rate_limit sec ts now =
           (if int (length ts) \<ge> rate_limit_requests sec
            then (Some (Exn SecurityException ''Rate limit exceeded''), ts)
            else (None, ts @ [now]))"
proof -
  have "filter (\<lambda>t. now - t < real_of_int (rate_limit_window sec)) ts = ts"
    using assms by (simp add: filter_id_conv)
  then show ?thesis by (simp add: check_rate_limit_def)
qed

lemma check_rate_limit_seq_under_quota:
  assumes "\<forall>t\<in>set (ts @ nows). \<forall>now\<in>set nows. now - t < real_of_int (rate_limit_window sec)"
    and "int (length ts + length nows) \<le> rate_limit_requests sec"
  shows "check_rate_limit_seq sec ts nows = (replicate (length nows) None, ts @ nows)"
  using assms
proof (induction nows arbitrary: ts)
  case Nil
  then show ?case by simp
next
  case (Cons now nows)
  have fresh: "\<forall>t\<in>set ts. now - t < real_of_int (rate_limit_window sec)"
    using Cons.prems(1) by simp
  have lt: "\<not> int (length ts) \<ge> rate_limit_requests sec"
    using Cons.prems(2) by simp
  have step: "check_rate_limit sec ts now = (None, ts @ [now])"
    using check_rate_limit_all_fresh [OF fresh] lt by simp
  have "check_rate_limit_seq sec (ts @ [now]) nows = (replicate (length nows) None, (ts @ [now]) @ nows)"
  proof (rule Cons.IH)
    show "\<forall>t\<in>set ((ts @ [now]) @ nows). \<forall>now\<in>set nows. now - t < real_of_int (rate_limit_window sec)"
      using Cons.prems(1) by auto
    show "int (length (ts @ [now]) + length nows) \<le> rate_limit_requests sec"
      using Cons.prems(2) by simp
  qed
  with step show ?case by simp
qed


lemma check_rate_limit_burst:
  assumes q: "0 \<le> rate_limit_requests sec"
    and len: "length nows = nat (rate_limit_requests sec) + 1"
    and within: "\<forall>a\<in>set nows. \<forall>b\<in>set nows. b - a < real_of_int (rate_limit_window sec)"
  shows "fst (check_rate_limit_seq sec [] nows) =
           replicate (nat (rate_limit_requests sec)) None @ [Some (Exn SecurityException ''Rate limit exceeded'')]"
proof -
  have ne: "nows \<noteq> []" using len by auto
  define xs where "xs = butlast nows"
  define y where "y = last nows"
  have split: "nows = xs @ [y]" using ne by (simp add: xs_def y_def)
  have lx: "length xs = nat (rate_limit_requests sec)" using len split by simp
  have a: "check_rate_limit_seq sec [] xs = (replicate (length xs) None, [] @ xs)"
  proof (rule check_rate_limit_seq_under_quota)
    show "\<forall>t\<in>set ([] @ xs). \<forall>now\<in>set xs. now - t < real_of_int (rate_limit_window sec)"
      using within split by auto
    show "int (length ([]::real list) + length xs) \<le> rate_limit_requests sec"
      using lx q by simp
  qed
  have fresh: "\<forall>t\<in>set xs. y - t < real_of_int (rate_limit_window sec)"
    using within split by auto
  have b: "check_rate_limit sec xs y = (Some (Exn SecurityException ''Rate limit exceeded''), xs)"
    using check_rate_limit_all_fresh [OF fresh] lx q by simp
  show ?thesis
    unfolding split check_rate_limit_seq_append using a b lx by simp
qed

text \<open>
  C8. \<open>_check_rate_limit\<close> prunes the window to the entries strictly newer than
  \<open>now - rate_limit_window\<close>, raises iff at least \<open>rate_limit_requests\<close> entries are left,
  and appends \<open>now\<close> otherwise. Hence, from an empty window, of \<open>rate_limit_requests + 1\<close>
  calls that lie less than one window apart the first \<open>rate_limit_requests\<close> succeed and
  the last one fails; and a call at least one window after every recorded entry succeeds
  (the quota being positive) and leaves only itself in the window.
\<close>

theorem check_rate_limit_spec:
  "check_rate_limit sec ts now =
     (let pruned = filter (\<lambda>t. t > now - real_of_int (rate_limit_window sec)) ts
      in if int (length pruned) \<ge> rate_limit_requests sec
         then (Some (Exn SecurityException ''Rate limit exceeded''), pruned)
         else (None, pruned @ [now]))
   \<and> (0 \<le> rate_limit_requests sec \<and> length nows = nat (rate_limit_requests sec) + 1
        \<and> (\<forall>a\<in>set nows. \<forall>b\<in>set nows. b - a < real_of_int (rate_limit_window sec))
      \<longrightarrow> fst (check_rate_limit_seq sec [] nows) =
            replicate (nat (rate_limit_requests sec)) None
              @ [Some (Exn SecurityException ''Rate limit exceeded'')])
   \<and> (0 < rate_limit_requests sec
        \<and> (\<forall>t\<in>set ts. real_of_int (rate_limit_window sec) \<le> now - t)
      \<longrightarrow> check_rate_limit sec ts now = (None, [now]))"
proof (intro conjI impI)
  have "(\<lambda>t. now - t < real_of_int (rate_limit_window sec))
          = (\<lambda>t. t > now - real_of_int (rate_limit_window sec))"
    by (rule ext) linarith
  then show "check_rate_limit sec ts now =
     (let pruned = filter (\<lambda>t. t > now - real_of_int (rate_limit_window sec)) ts
      in if int (length pruned) \<ge> rate_limit_requests sec
         then (Some (Exn SecurityException ''Rate limit exceeded''), pruned)
         else (None, pruned @ [now]))"
    by (simp add: check_rate_limit_def)
next
  assume "0 \<le> rate_limit_requests sec \<and> length nows = nat (rate_limit_requests sec) + 1
        \<and> (\<forall>a\<in>set nows. \<forall>b\<in>set nows. b - a < real_of_int (rate_limit_window sec))"
  then show "fst (check_rate_limit_seq sec [] nows) =
            replicate (nat (rate_limit_requests sec)) None
              @ [Some (Exn SecurityException ''Rate limit exceeded'')]"
    by (intro check_rate_limit_burst) simp_all
next
  assume a: "0 < rate_limit_requests sec
        \<and> (\<forall>t\<in>set ts. real_of_int (rate_limit_window sec) \<le> now - t)"
  then have "filter (\<lambda>t. now - t < real_of_int (rate_limit_window sec)) ts = []"
    by (auto simp: filter_empty_conv)
  with a show "check_rate_limit sec ts now = (None, [now])"
    by (simp add: check_rate_limit_def)
qed

theorem check_rate_limit_spec_witness:
  "fst (check_rate_limit_seq sec_small [] [0, 10, 20]) =
     [None, None, Some (Exn SecurityException ''Rate limit exceeded'')]
   \<and> check_rate_limit sec_small [0, 10] 100 = (None, [100])
   \<and> check_rate_limit sec_small [0, 10] 30 =
       (Some (Exn SecurityException ''Rate limit exceeded''), [0, 10])"
  using check_rate_limit_spec [of sec_small "[0, 10]" 100 "[0, 10, 20]"]
    check_rate_limit_spec [of sec_small "[0, 10]" 30 "[]"]
  by (simp add: sec_small_def numeral_2_eq_2)

subsection \<open>Sanitizer\<close>



lemma tagfree_fix: "tagfree s \<Longrightarrow> strip_tags s = s"
  by (induction s) auto

lemma runfree_fix: "runfree s \<Longrightarrow> collapse_newlines s = s"
  by (induction s) auto

lemma set_strip_tags: "set (strip_tags s) \<subseteq> set s"
proof (induction s rule: strip_tags.induct)
  case 1 show ?case by simp
next
  case (2 c cs)
  show ?case
  proof (cases "c = CHR ''<'' \<and> cs \<noteq> [] \<and> hd cs \<noteq> CHR ''>'' \<and> CHR ''>'' \<in> set cs")
    case True
    have "set (tl (dropWhile (\<lambda>d. d \<noteq> CHR ''>'') cs)) \<subseteq> set cs"
      by (metis list.set_sel(2) set_dropWhileD subsetI tl_Nil)
    with True 2 show ?thesis by auto
  next
    case False
    with 2 show ?thesis by auto
  qed
qed

lemma hd_strip_tags_gt: "s \<noteq> [] \<Longrightarrow> hd s = CHR ''>'' \<Longrightarrow> strip_tags s \<noteq> [] \<and> hd (strip_tags s) = CHR ''>''"
  by (cases s) auto

lemma tagfree_strip_tags: "tagfree (strip_tags s)"
proof (induction s rule: strip_tags.induct)
  case 1 show ?case by simp
next
  case (2 c cs)
  show ?case
  proof (cases "c = CHR ''<'' \<and> cs \<noteq> [] \<and> hd cs \<noteq> CHR ''>'' \<and> CHR ''>'' \<in> set cs")
    case True
    with 2 show ?thesis by simp
  next
    case False
    then have eq: "strip_tags (c # cs) = c # strip_tags cs" by auto
    have tf: "tagfree (strip_tags cs)" using 2(2) False by blast
    have "\<not> (c = CHR ''<'' \<and> strip_tags cs \<noteq> [] \<and> hd (strip_tags cs) \<noteq> CHR ''>'' \<and> CHR ''>'' \<in> set (strip_tags cs))"
    proof
      assume a: "c = CHR ''<'' \<and> strip_tags cs \<noteq> [] \<and> hd (strip_tags cs) \<noteq> CHR ''>'' \<and> CHR ''>'' \<in> set (strip_tags cs)"
      then have ne: "cs \<noteq> []" by auto
      have gt: "CHR ''>'' \<in> set cs" using a set_strip_tags by blast
      have "hd cs = CHR ''>''" using False a ne gt by blast
      then show False using a hd_strip_tags_gt [OF ne] by simp
    qed
    with tf eq show ?thesis by simp
  qed
qed

lemma newline_neq [simp]:
  "newline \<noteq> CHR ''<''" "newline \<noteq> CHR ''>''" "CHR ''<'' \<noteq> newline" "CHR ''>'' \<noteq> newline"
  by (simp_all add: newline_def)

lemma set_dropWhile_newline_gt:
  "CHR ''>'' \<in> set (dropWhile (\<lambda>d. d = newline) cs) \<longleftrightarrow> CHR ''>'' \<in> set cs"
  by (induction cs) auto

lemma gt_in_collapse: "CHR ''>'' \<in> set (collapse_newlines s) \<longleftrightarrow> CHR ''>'' \<in> set s"
proof (induction s rule: collapse_newlines.induct)
  case 1 show ?case by simp
next
  case (2 c cs)
  show ?case
  proof (cases "c = newline \<and> length (takeWhile (\<lambda>d. d = newline) (c # cs)) \<ge> 10")
    case True
    with 2 show ?thesis by (simp add: set_dropWhile_newline_gt)
  next
    case False
    with 2 show ?thesis by auto
  qed
qed

lemma collapse_nonempty: "s \<noteq> [] \<Longrightarrow> collapse_newlines s \<noteq> [] \<and> hd (collapse_newlines s) = hd s"
  by (cases s) auto

lemma tagfree_replicate_newline: "tagfree (replicate n newline @ s) = tagfree s"
  by (induction n) auto

lemma tagfree_dropWhile: "tagfree s \<Longrightarrow> tagfree (dropWhile P s)"
  by (induction s) auto

lemma tagfree_collapse: "tagfree s \<Longrightarrow> tagfree (collapse_newlines s)"
proof (induction s rule: collapse_newlines.induct)
  case 1 show ?case by simp
next
  case (2 c cs)
  have tcs: "tagfree cs" using 2(3) by simp
  show ?case
  proof (cases "c = newline \<and> length (takeWhile (\<lambda>d. d = newline) (c # cs)) \<ge> 10")
    case True
    have "tagfree (collapse_newlines (dropWhile (\<lambda>d. d = newline) cs))"
      using 2(1) True tagfree_dropWhile [OF tcs] by blast
    moreover have "collapse_newlines (c # cs) =
        replicate 5 newline @ collapse_newlines (dropWhile (\<lambda>d. d = newline) cs)"
      using True by auto
    ultimately show ?thesis by (simp only: tagfree_replicate_newline)
  next
    case False
    then have eq: "collapse_newlines (c # cs) = c # collapse_newlines cs" by auto
    have tf: "tagfree (collapse_newlines cs)" using 2(2) False tcs by blast
    have "\<not> (c = CHR ''<'' \<and> collapse_newlines cs \<noteq> [] \<and> hd (collapse_newlines cs) \<noteq> CHR ''>''
             \<and> CHR ''>'' \<in> set (collapse_newlines cs))"
    proof
      assume a: "c = CHR ''<'' \<and> collapse_newlines cs \<noteq> [] \<and> hd (collapse_newlines cs) \<noteq> CHR ''>''
             \<and> CHR ''>'' \<in> set (collapse_newlines cs)"
      then have ne: "cs \<noteq> []" by auto
      have "hd cs \<noteq> CHR ''>''" using a collapse_nonempty [OF ne] by simp
      moreover have "CHR ''>'' \<in> set cs" using a gt_in_collapse by simp
      ultimately show False using 2(3) a ne by simp
    qed
    with tf eq show ?thesis by simp
  qed
qed

lemma tagfree_take: "tagfree s \<Longrightarrow> tagfree (take n s)"
proof (induction s arbitrary: n)
  case Nil show ?case by simp
next
  case (Cons c cs)
  show ?case
  proof (cases n)
    case 0 then show ?thesis by simp
  next
    case (Suc m)
    have tf: "tagfree (take m cs)" using Cons by simp
    have "\<not> (c = CHR ''<'' \<and> take m cs \<noteq> [] \<and> hd (take m cs) \<noteq> CHR ''>'' \<and> CHR ''>'' \<in> set (take m cs))"
    proof
      assume a: "c = CHR ''<'' \<and> take m cs \<noteq> [] \<and> hd (take m cs) \<noteq> CHR ''>'' \<and> CHR ''>'' \<in> set (take m cs)"
      then have ne: "cs \<noteq> []" by auto
      have "hd (take m cs) = hd cs" using a by (cases m; cases cs) auto
      moreover have "CHR ''>'' \<in> set cs" using a by (meson in_set_takeD)
      ultimately show False using Cons.prems a ne by simp
    qed
    with tf Suc show ?thesis by simp
  qed
qed

lemma takeWhile_collapse:
  "length (takeWhile (\<lambda>d. d = newline) s) < 10 \<Longrightarrow>
   takeWhile (\<lambda>d. d = newline) (collapse_newlines s) = takeWhile (\<lambda>d. d = newline) s"
  by (induction s) auto

lemma takeWhile_replicate_newline:
  "t = [] \<or> hd t \<noteq> newline \<Longrightarrow> takeWhile (\<lambda>d. d = newline) (replicate k newline @ t) = replicate k newline"
  by (induction k) (auto simp: takeWhile_eq_Nil_iff)

lemma runfree_replicate:
  "runfree t \<Longrightarrow> t = [] \<or> hd t \<noteq> newline \<Longrightarrow> k < 10 \<Longrightarrow> runfree (replicate k newline @ t)"
proof (induction k)
  case 0 then show ?case by simp
next
  case (Suc k)
  have "takeWhile (\<lambda>d. d = newline) (replicate k newline @ t) = replicate k newline"
    using Suc.prems(2) by (rule takeWhile_replicate_newline)
  with Suc show ?case by simp
qed

lemma hd_dropWhile_newline:
  "dropWhile (\<lambda>d. d = newline) cs = [] \<or> hd (dropWhile (\<lambda>d. d = newline) cs) \<noteq> newline"
  using hd_dropWhile [of "\<lambda>d. d = newline" cs] by blast

lemma runfree_collapse: "runfree (collapse_newlines s)"
proof (induction s rule: collapse_newlines.induct)
  case 1 show ?case by simp
next
  case (2 c cs)
  show ?case
  proof (cases "c = newline \<and> length (takeWhile (\<lambda>d. d = newline) (c # cs)) \<ge> 10")
    case True
    let ?r = "dropWhile (\<lambda>d. d = newline) cs"
    have rf: "runfree (collapse_newlines ?r)" using 2(1) True by blast
    have "collapse_newlines ?r = [] \<or> hd (collapse_newlines ?r) \<noteq> newline"
    proof (cases "?r = []")
      case True
      then have "collapse_newlines ?r = []" by (simp only: collapse_newlines.simps)
      then show ?thesis by (rule disjI1)
    next
      case False
      then have "hd ?r \<noteq> newline" using hd_dropWhile_newline [of cs] by blast
      then show ?thesis using collapse_nonempty [OF False] by simp
    qed
    then have "runfree (replicate 5 newline @ collapse_newlines ?r)"
      using rf by (intro runfree_replicate) simp_all
    moreover have "collapse_newlines (c # cs) = replicate 5 newline @ collapse_newlines ?r"
      using True by auto
    ultimately show ?thesis by (simp only:)
  next
    case False
    then have eq: "collapse_newlines (c # cs) = c # collapse_newlines cs" by auto
    have rf: "runfree (collapse_newlines cs)" using 2(2) False by blast
    have "\<not> (c = newline \<and> length (takeWhile (\<lambda>d. d = newline) (c # collapse_newlines cs)) \<ge> 10)"
    proof
      assume a: "c = newline \<and> length (takeWhile (\<lambda>d. d = newline) (c # collapse_newlines cs)) \<ge> 10"
      have short: "length (takeWhile (\<lambda>d. d = newline) cs) < 9" using False a by auto
      then have "takeWhile (\<lambda>d. d = newline) (collapse_newlines cs) = takeWhile (\<lambda>d. d = newline) cs"
        by (intro takeWhile_collapse) simp
      then show False using a short by auto
    qed
    with rf eq show ?thesis by simp
  qed
qed

lemma length_takeWhile_take:
  "length (takeWhile P (take n s)) \<le> length (takeWhile P s)"
proof (induction s arbitrary: n)
  case Nil show ?case by simp
next
  case (Cons c cs) then show ?case by (cases n) auto
qed

lemma runfree_take: "runfree s \<Longrightarrow> runfree (take n s)"
proof (induction s arbitrary: n)
  case Nil show ?case by simp
next
  case (Cons c cs)
  show ?case
  proof (cases n)
    case 0 then show ?thesis by simp
  next
    case (Suc m)
    have "length (takeWhile (\<lambda>d. d = newline) (take m cs)) \<le> length (takeWhile (\<lambda>d. d = newline) cs)"
      by (rule length_takeWhile_take)
    with Cons Suc show ?thesis by auto
  qed
qed

text \<open>
  C9. \<open>_sanitize_prompt\<close> is idempotent. The length limit is taken not to be negative:
  the only call of \<open>_sanitize_prompt\<close> follows \<open>_validate_prompt\<close>, which raises unless
  \<open>len(prompt) <= max_prompt_length\<close>.
\<close>

theorem sanitize_prompt_idempotent:
  assumes "0 \<le> max_prompt_length sec"
  shows "sanitize_prompt sec (sanitize_prompt sec x) = sanitize_prompt sec x"
proof -
  define n where "n = nat (max_prompt_length sec)"
  define y where "y = take n (collapse_newlines (strip_tags x))"
  have y: "sanitize_prompt sec x = y"
    using assms by (simp add: sanitize_prompt_def slice_to_def y_def n_def)
  have "tagfree y"
    unfolding y_def by (intro tagfree_take tagfree_collapse tagfree_strip_tags)
  then have 1: "strip_tags y = y" by (rule tagfree_fix)
  have "runfree y"
    unfolding y_def by (intro runfree_take runfree_collapse)
  then have 2: "collapse_newlines y = y" by (rule runfree_fix)
  have 3: "take n y = y" by (simp add: y_def)
  have "sanitize_prompt sec y = y"
    using assms 1 2 3 by (simp add: sanitize_prompt_def slice_to_def n_def)
  then show ?thesis by (simp add: y)
qed

theorem sanitize_prompt_idempotent_witness:
  "0 \<le> max_prompt_length sec_small
   \<and> sanitize_prompt sec_small ''a<b>c<>d<<e>>f<g'' = ''ac<>d>f<g''
   \<and> sanitize_prompt sec_small (sanitize_prompt sec_small ''a<b>c<>d<<e>>f<g'') = ''ac<>d>f<g''"
proof -
  have v: "sanitize_prompt sec_small ''a<b>c<>d<<e>>f<g'' = ''ac<>d>f<g''"
    by (simp add: sanitize_prompt_def slice_to_def sec_small_def newline_def)
  have h: "0 \<le> max_prompt_length sec_small" by (simp add: sec_small_def)
  show ?thesis
    using sanitize_prompt_idempotent [OF h, of "''a<b>c<>d<<e>>f<g''"] v h by simp
qed

section \<open>Verification: selection and learning\<close>

subsection \<open>The first greatest element\<close>

lemma foldl_max_key:
  "foldl (\<lambda>best x. if (key x :: 'b::linorder) > key best then x else best) a xs \<in> set (a # xs)
   \<and> (\<forall>y\<in>set (a # xs). key y \<le> key (foldl (\<lambda>best x. if key x > key best then x else best) a xs))"
proof (induction xs arbitrary: a)
  case Nil show ?case by simp
next
  case (Cons x xs)
  let ?f = "\<lambda>best x. if key x > key best then x else best"
  show ?case
  proof (cases "key x > key a")
    case True
    then have eq: "foldl ?f a (x # xs) = foldl ?f x xs" by simp
    have ih: "foldl ?f x xs \<in> set (x # xs) \<and> (\<forall>y\<in>set (x # xs). key y \<le> key (foldl ?f x xs))"
      by (rule Cons.IH)
    then have "key x \<le> key (foldl ?f x xs)" by simp
    then have "key a \<le> key (foldl ?f x xs)" using True by simp
    with ih show ?thesis unfolding eq by simp
  next
    case False
    then have eq: "foldl ?f a (x # xs) = foldl ?f a xs" by simp
    have ih: "foldl ?f a xs \<in> set (a # xs) \<and> (\<forall>y\<in>set (a # xs). key y \<le> key (foldl ?f a xs))"
      by (rule Cons.IH)
    then have "key a \<le> key (foldl ?f a xs)" by simp
    then have "key x \<le> key (foldl ?f a xs)" using False by simp
    with ih show ?thesis unfolding eq by auto
  qed
qed

lemma py_max_key_in: "xs \<noteq> [] \<Longrightarrow> py_max_key key xs \<in> set xs"
proof -
  assume "xs \<noteq> []"
  then obtain a ys where xs: "xs = a # ys" by (cases xs) auto
  show ?thesis
    unfolding xs py_max_key_def list.sel using foldl_max_key [of key a ys] by (rule conjunct1)
qed

lemma py_max_key_ge: "xs \<noteq> [] \<Longrightarrow> y \<in> set xs \<Longrightarrow> key y \<le> key (py_max_key key xs)"
proof -
  assume "xs \<noteq> []" and y: "y \<in> set xs"
  then obtain a ys where xs: "xs = a # ys" by (cases xs) auto
  have "\<forall>y\<in>set (a # ys). key y \<le> key (foldl (\<lambda>best x. if key x > key best then x else best) a ys)"
    using foldl_max_key [of key a ys] by (rule conjunct2)
  then show ?thesis
    using y unfolding xs py_max_key_def list.sel by (rule bspec)
qed

lemma py_max_id: "xs \<noteq> [] \<Longrightarrow> py_max_key (\<lambda>x. x) xs = Max (set xs)"
proof -
  assume ne: "xs \<noteq> []"
  show ?thesis
  proof (rule sym, rule Max_eqI)
    show "finite (set xs)" by simp
    show "y \<le> py_max_key (\<lambda>x. x) xs" if "y \<in> set xs" for y
      using py_max_key_ge [where key = "\<lambda>x. x", OF ne that] .
    show "py_max_key (\<lambda>x. x) xs \<in> set xs" by (rule py_max_key_in [OF ne])
  qed
qed

subsection \<open>Milestones\<close>

lemma last_ten_nonempty: "xs \<noteq> [] \<Longrightarrow> last_ten xs \<noteq> []"
  by (cases xs) (auto simp: last_ten_def)

lemma should_trigger_nonempty:
  assumes "ms \<noteq> []" and "Max (set (last_ten ms)) + 1 / 100000 \<noteq> 0"
  shows "should_trigger_improvement ms thr s =
           Inr ((s - Max (set (last_ten ms))) / (Max (set (last_ten ms)) + 1 / 100000) > thr \<and> s > 5)"
  using assms py_max_id [OF last_ten_nonempty [OF assms(1)]]
  by (simp add: should_trigger_improvement_def Let_def)

lemma trigger_example_yes: "should_trigger_improvement [6, 7] (15 / 100) (85 / 10) = Inr True"
  by (simp add: should_trigger_improvement_def py_max_key_def last_ten_def Let_def)

lemma trigger_example_no: "should_trigger_improvement [6, 7] (15 / 100) (75 / 10) = Inr False"
  by (simp add: should_trigger_improvement_def py_max_key_def last_ten_def Let_def)

lemma learn_append:
  assumes "reviews \<noteq> []" "\<forall>r\<in>set reviews. num_of (get_score r) \<noteq> None"
    and "should_trigger_improvement (quality_milestones ag) (improvement_threshold ag)
           (score_key (select_winner reviews)) = Inr b"
  shows "quality_milestones (snd (select_and_learn ag w candidates reviews)) =
          (if b then quality_milestones ag @ [score_key (select_winner reviews)] else quality_milestones ag)"
  using assms by (auto simp: select_and_learn_def Let_def)

subsection \<open>Candidate generation\<close>

lemma length_gather_calls:
  "length (fst (gather_calls ag now http i tasks)) = length tasks"
proof (induction tasks arbitrary: ag i)
  case Nil show ?case by simp
next
  case (Cons t tasks)
  obtain model prompt where t: "t = (model, prompt)" by (cases t)
  obtain r ag' where c: "call_openrouter ag (now i) (http i model) model prompt = (r, ag')"
    by (cases "call_openrouter ag (now i) (http i model) model prompt")
  obtain rs ag'' where g: "gather_calls ag' now http (Suc i) tasks = (rs, ag'')"
    by (cases "gather_calls ag' now http (Suc i) tasks")
  have "length rs = length tasks" using Cons [of ag' "Suc i"] g by simp
  then show ?case by (simp add: t c g)
qed

lemma length_valid_results: "length (valid_results rs) \<le> length rs"
  by (induction rs rule: valid_results.induct) auto

lemma valid_results_nonempty_text: "c \<in> set (valid_results rs) \<Longrightarrow> py_strip (c_text c) \<noteq> []"
  by (induction rs rule: valid_results.induct) (auto split: if_splits)

lemma valid_results_all_failed: "\<forall>r\<in>set rs. isl r \<Longrightarrow> valid_results rs = []"
  by (induction rs rule: valid_results.induct) auto

lemma valid_results_subset: "c \<in> set (valid_results rs) \<Longrightarrow> Inr c \<in> set rs"
  by (induction rs rule: valid_results.induct) (auto split: if_splits)

lemma length_slice_to: "0 \<le> n \<Longrightarrow> int (length (slice_to n xs)) \<le> min n (int (length xs))"
  by (simp add: slice_to_def)

lemma generate_candidates_ok:
  "get_active_models ag \<noteq> [] \<Longrightarrow>
   fst (generate_candidates ag w task) = Inr (valid_results (gen_results ag w task))"
  by (simp add: generate_candidates_def gen_results_def Let_def split: prod.splits)

lemma generate_candidates_none:
  "get_active_models ag = [] \<Longrightarrow>
   generate_candidates ag w task = (Inl (Exn RuntimeError ''No available models''), ag)"
  by (simp add: generate_candidates_def)

lemma length_active: "length (get_active_models ag) \<le> length (models (config ag))"
  by (simp add: get_active_models_def)


lemma get_active_models_filter:
  "get_active_models ag = filter (circuit_closed ag) (models (config ag))"
proof -
  have "circuit_closed ag = (\<lambda>model. (case circuit_state ag model of None \<Rightarrow> ''closed'' | Some s \<Rightarrow> s) = ''closed'')"
    by (rule ext) (simp add: circuit_closed_def)
  then show ?thesis by (simp add: get_active_models_def)
qed

lemma get_active_models_empty:
  "get_active_models ag = [] \<longleftrightarrow> (\<forall>m\<in>set (models (config ag)). \<not> circuit_closed ag m)"
  by (simp add: get_active_models_filter filter_empty_conv)

lemma retry_loop_model:
  "retry_loop http retries m attempts = Inr r \<Longrightarrow> c_model r = m"
proof (induction attempts)
  case Nil
  then show ?case by auto
next
  case (Cons a attempts)
  then show ?case
    by (auto simp: Let_def split: http_outcome.splits if_splits sum.splits)
qed

lemma call_openrouter_model:
  "fst (call_openrouter ag now http m prompt) = Inr r \<Longrightarrow> c_model r = m"
  by (auto simp: call_openrouter_def Let_def retry_loop_model
      split: prod.splits option.splits sum.splits)

lemma gather_calls_models:
  "Inr r \<in> set (fst (gather_calls ag now http i tasks)) \<Longrightarrow> c_model r \<in> fst ` set tasks"
proof (induction tasks arbitrary: ag i)
  case Nil
  then show ?case by simp
next
  case (Cons t tasks)
  obtain m prompt where t: "t = (m, prompt)" by (cases t)
  obtain x ag' where c: "call_openrouter ag (now i) (http i m) m prompt = (x, ag')"
    by (cases "call_openrouter ag (now i) (http i m) m prompt")
  obtain rs ag'' where g: "gather_calls ag' now http (Suc i) tasks = (rs, ag'')"
    by (cases "gather_calls ag' now http (Suc i) tasks")
  have "Inr r = x \<or> Inr r \<in> set rs" using Cons.prems by (simp add: t c g)
  then show ?case
  proof
    assume "Inr r = x"
    then have "c_model r = m" using call_openrouter_model [of ag "now i" "http i m" m prompt r] c by simp
    then show ?thesis by (simp add: t)
  next
    assume "Inr r \<in> set rs"
    then have "c_model r \<in> fst ` set tasks" using Cons.IH [of ag' "Suc i"] g by simp
    then show ?thesis by simp
  qed
qed

lemma candidates_from_active:
  assumes "fst (generate_candidates ag w task) = Inr candidates"
    and "set (permutation w (get_active_models ag)) \<subseteq> set (get_active_models ag)"
    and "c \<in> set candidates"
  shows "c_model c \<in> set (models (config ag)) \<and> circuit_closed ag (c_model c)"
proof -
  have ne: "get_active_models ag \<noteq> []"
    using assms(1) generate_candidates_none [of ag w task] by auto
  have "candidates = valid_results (gen_results ag w task)"
    using assms(1) generate_candidates_ok [OF ne, of w task] by simp
  then have "Inr c \<in> set (gen_results ag w task)" using assms(3) valid_results_subset by blast
  then have "c_model c \<in> fst ` set (map (\<lambda>model. (model, build_generation_prompt task))
               (slice_to (num_candidates ag) (permutation w (get_active_models ag))))"
    unfolding gen_results_def by (rule gather_calls_models)
  then have "c_model c \<in> set (slice_to (num_candidates ag) (permutation w (get_active_models ag)))"
    by (auto simp: image_iff)
  then have "c_model c \<in> set (permutation w (get_active_models ag))"
    by (auto simp: slice_to_def split: if_splits dest: in_set_takeD)
  then have "c_model c \<in> set (get_active_models ag)" using assms(2) by blast
  then show ?thesis by (simp add: get_active_models_filter)
qed

lemma fold_closed:
  "fold (\<lambda>model cs. cs(model \<mapsto> ''closed'')) xs init m =
     (if m \<in> set xs then Some ''closed'' else init m)"
  by (induction xs arbitrary: init) auto

lemma init_agent_closed: "circuit_closed (init_agent cfg sec n threshold) m"
  by (simp add: circuit_closed_def init_agent_def fold_closed)

subsection \<open>The winner\<close>

lemma find_filter_hd: "find P xs = (case filter P xs of [] \<Rightarrow> None | x # _ \<Rightarrow> Some x)"
  by (induction xs) auto

lemma sorted_reviews_props:
  "set (sorted_reviews reviews) = set reviews"
  "length (sorted_reviews reviews) = length reviews"
  "sorted (map (\<lambda>review. - score_key review) (sorted_reviews reviews))"
  "filter (\<lambda>r. score_key r = k) (sorted_reviews reviews) = filter (\<lambda>r. score_key r = k) reviews"
proof -
  show "set (sorted_reviews reviews) = set reviews" by (simp add: sorted_reviews_def)
  show "length (sorted_reviews reviews) = length reviews" by (simp add: sorted_reviews_def)
  show "sorted (map (\<lambda>review. - score_key review) (sorted_reviews reviews))"
    by (simp add: sorted_reviews_def)
  have "filter (\<lambda>r. - score_key r = - k) (sort_key (\<lambda>review. - score_key review) reviews)
        = filter (\<lambda>r. - score_key r = - k) reviews"
    by (rule sort_key_stable)
  then show "filter (\<lambda>r. score_key r = k) (sorted_reviews reviews) = filter (\<lambda>r. score_key r = k) reviews"
    by (simp add: sorted_reviews_def)
qed

lemma select_winner_hd: "select_winner reviews = hd (sorted_reviews reviews)"
  by (simp add: select_winner_def)

lemma select_winner_in: "reviews \<noteq> [] \<Longrightarrow> select_winner reviews \<in> set reviews"
proof -
  assume "reviews \<noteq> []"
  then have "sorted_reviews reviews \<noteq> []"
    using sorted_reviews_props(2) [of reviews] by auto
  then have "hd (sorted_reviews reviews) \<in> set (sorted_reviews reviews)" by (rule hd_in_set)
  then show ?thesis by (simp add: select_winner_hd sorted_reviews_props(1))
qed

lemma select_winner_max:
  assumes "r \<in> set reviews"
  shows "score_key r \<le> score_key (select_winner reviews)"
proof -
  let ?s = "sorted_reviews reviews"
  have r: "r \<in> set ?s" using assms by (simp add: sorted_reviews_props(1))
  then obtain x xs where s: "?s = x # xs" by (cases ?s) auto
  have "sorted (map (\<lambda>review. - score_key review) (x # xs))"
    using sorted_reviews_props(3) [of reviews] by (simp only: s)
  then have "\<forall>y\<in>set xs. - score_key x \<le> - score_key y" by simp
  then have "score_key r \<le> score_key x" using r s by auto
  then show ?thesis by (simp add: select_winner_hd s)
qed

lemma select_winner_Max:
  assumes "reviews \<noteq> []"
  shows "score_key (select_winner reviews) = Max (score_key ` set reviews)"
proof (rule sym, rule Max_eqI)
  show "finite (score_key ` set reviews)" by simp
  show "y \<le> score_key (select_winner reviews)" if "y \<in> score_key ` set reviews" for y
    using that select_winner_max by auto
  show "score_key (select_winner reviews) \<in> score_key ` set reviews"
    using select_winner_in [OF assms] by simp
qed

lemma select_winner_first:
  assumes "reviews \<noteq> []"
  shows "find (\<lambda>r. score_key r = Max (score_key ` set reviews)) reviews = Some (select_winner reviews)"
proof -
  let ?s = "sorted_reviews reviews"
  let ?k = "score_key (select_winner reviews)"
  have "?s \<noteq> []" using assms sorted_reviews_props(2) [of reviews] by auto
  then obtain x xs where s: "?s = x # xs" by (cases ?s) auto
  have w: "select_winner reviews = x" by (simp add: select_winner_hd s)
  have "filter (\<lambda>r. score_key r = ?k) reviews = filter (\<lambda>r. score_key r = ?k) ?s"
    by (simp add: sorted_reviews_props(4))
  also have "\<dots> = x # filter (\<lambda>r. score_key r = ?k) xs"
    by (simp add: s w)
  finally have "find (\<lambda>r. score_key r = ?k) reviews = Some x"
    by (simp add: find_filter_hd)
  then show ?thesis by (simp add: w select_winner_Max [OF assms, symmetric])
qed

lemma select_and_learn_winner_result:
  assumes "reviews \<noteq> []" and "select_and_learn ag w candidates reviews = (Inr res, ag')"
  shows "confidence res = (if score_key (select_winner reviews) > 7 then ''high'' else ''medium'')
         \<and> score res = get_score (select_winner reviews)
         \<and> solution res = get_default (select_winner reviews) ''improved''
                            (get_default (select_winner reviews) ''original'' (JStr []))
         \<and> model res = get_default (select_winner reviews) ''model'' (JStr ''unknown'')"
  using assms
  by (auto simp: select_and_learn_def Let_def split: if_splits sum.splits)

lemma select_and_learn_no_reviews:
  "select_and_learn ag w candidates [] =
     (Inr \<lparr> solution = JStr (c_text (py_max_key (\<lambda>x. length (c_text x)) candidates)),
             score = JNum 5,
             model = JStr (c_model (py_max_key (\<lambda>x. length (c_text x)) candidates)),
             processing_time = end_time w - start_time w,
             confidence = ''low'',
             flaw_corrected = None, error = None, info = None \<rparr>, ag)"
  by (simp add: select_and_learn_def Let_def)

lemma solve_no_candidates:
  assumes "api_key (config ag) \<noteq> []" "api_key (config ag) \<noteq> ''your-openrouter-api-key-here''"
    and "generate_candidates ag w task = (Inr [], ag1)"
  shows "solve ag w task =
     (\<lparr> solution = JStr (''I apologize, but I'' @ [CHR 0x27]
                          @ ''m unable to generate a response at the moment. Please try again.''),
        score = JNum 0, model = JStr ''fallback'',
        processing_time = end_time w - start_time w, confidence = ''none'',
        flaw_corrected = None, error = None, info = None \<rparr>, ag1)"
  using assms by (simp add: solve_def solve_body_def)

section \<open>Verification: the reviewer under the shipped patterns, and the milestone log\<close>

text \<open>
  The review prompt holds the word \<open>Evaluate\<close>, which the third of the patterns set by
  \<open>__init__\<close> matches. So \<open>_validate_prompt\<close> rejects every review prompt, every review
  call raises before any request is made, and \<open>_peer_review\<close> returns no review; \<open>solve\<close>
  then never reaches its winning path. The statements on the reviews and on the winner
  are therefore about agents whose pattern list lets the review prompt pass.
\<close>

subsection \<open>The second loop of \<open>_peer_review\<close>\<close>

lemma kept_reviews_Nil: "kept_reviews loads reviewer [] = []"
  by (simp add: kept_reviews_def map_filter_simps)

lemma kept_reviews_append:
  "kept_reviews loads reviewer (ps @ qs) = kept_reviews loads reviewer ps @ kept_reviews loads reviewer qs"
  by (simp add: kept_reviews_def map_filter_def)

lemma kept_reviews_Cons:
  "kept_reviews loads reviewer (p # ps) = kept_reviews loads reviewer [p] @ kept_reviews loads reviewer ps"
  using kept_reviews_append [of loads reviewer "[p]" ps] by simp

lemma kept_reviews_single:
  "kept_reviews loads reviewer [(c, r)] =
     (case r of
        Inl e \<Rightarrow> []
      | Inr result \<Rightarrow>
          (case review_data_of loads reviewer c result of
             Inl e \<Rightarrow> []
           | Inr review_data \<Rightarrow>
               if validate_review_scores review_data = Inr True then [review_data] else []))"
  by (simp add: kept_reviews_def map_filter_simps split: sum.splits)

lemma review_loop_step:
  assumes "\<not> escaping_pair loads reviewer p"
  shows "review_loop loads reviewer (p # rest) =
           (case review_loop loads reviewer rest of
              Inl e \<Rightarrow> Inl e
            | Inr reviews \<Rightarrow> Inr (kept_reviews loads reviewer [p] @ reviews))"
proof -
  obtain c r where p: "p = (c, r)" by (cases p)
  show ?thesis
  proof (cases r)
    case (Inl e)
    then show ?thesis by (simp add: p kept_reviews_single split: sum.splits)
  next
    case (Inr result)
    show ?thesis
    proof (cases "review_data_of loads reviewer c result")
      case e: (Inl e)
      then have "caught_in_loop e" using assms by (simp add: escaping_pair_def p Inr)
      then show ?thesis
        using e by (simp add: p Inr kept_reviews_single caught_in_loop_def Let_def split: sum.splits)
    next
      case rd: (Inr review_data)
      show ?thesis
      proof (cases "validate_review_scores review_data")
        case e: (Inl e)
        then have "caught_in_loop e" using assms by (simp add: escaping_pair_def p Inr rd)
        then show ?thesis
          using e rd
          by (simp add: p Inr kept_reviews_single caught_in_loop_def Let_def split: sum.splits)
      next
        case v: (Inr valid)
        then show ?thesis
          using rd by (cases valid) (simp_all add: p Inr kept_reviews_single Let_def split: sum.splits)
      qed
    qed
  qed
qed

lemma review_loop_escapes:
  assumes "escaping_pair loads reviewer p"
  shows "isl (review_loop loads reviewer (p # rest))"
proof -
  obtain c r where p: "p = (c, r)" by (cases p)
  show ?thesis
    using assms
    by (auto simp: p escaping_pair_def caught_in_loop_def Let_def split: sum.splits)
qed

lemma review_loop_kept:
  "\<forall>p\<in>set pairs. \<not> escaping_pair loads reviewer p \<Longrightarrow>
   review_loop loads reviewer pairs = Inr (kept_reviews loads reviewer pairs)"
proof (induction pairs)
  case Nil
  show ?case by (simp add: kept_reviews_Nil)
next
  case (Cons p pairs)
  have "review_loop loads reviewer pairs = Inr (kept_reviews loads reviewer pairs)"
    using Cons by simp
  moreover have "\<not> escaping_pair loads reviewer p" using Cons.prems by simp
  ultimately show ?case
    using kept_reviews_Cons [of loads reviewer p pairs] by (simp add: review_loop_step)
qed

lemma review_loop_Inr_no_escape:
  "review_loop loads reviewer pairs = Inr reviews \<Longrightarrow>
   \<forall>p\<in>set pairs. \<not> escaping_pair loads reviewer p"
proof (induction pairs arbitrary: reviews)
  case Nil
  show ?case by simp
next
  case (Cons p pairs)
  have ne: "\<not> escaping_pair loads reviewer p"
    using review_loop_escapes [of loads reviewer p pairs] Cons.prems by auto
  then obtain rest where "review_loop loads reviewer pairs = Inr rest"
    using Cons.prems review_loop_step [OF ne, of pairs]
    by (cases "review_loop loads reviewer pairs") simp_all
  then have "\<forall>p\<in>set pairs. \<not> escaping_pair loads reviewer p" by (rule Cons.IH)
  then show ?case using ne by simp
qed

lemma review_loop_Inr:
  "review_loop loads reviewer pairs = Inr reviews \<Longrightarrow> reviews = kept_reviews loads reviewer pairs"
  using review_loop_kept [OF review_loop_Inr_no_escape] by fastforce


lemma kept_reviews_member:
  assumes "r \<in> set (kept_reviews loads reviewer pairs)"
  shows "\<exists>i<length pairs. \<exists>result.
           snd (pairs ! i) = Inr result
           \<and> review_data_of loads reviewer (fst (pairs ! i)) result = Inr r
           \<and> validate_review_scores r = Inr True"
proof -
  obtain p where p: "p \<in> set pairs"
    and r: "(case snd p of
               Inl e \<Rightarrow> None
             | Inr result \<Rightarrow>
                 (case review_data_of loads reviewer (fst p) result of
                    Inl e \<Rightarrow> None
                  | Inr review_data \<Rightarrow>
                      if validate_review_scores review_data = Inr True then Some review_data
                      else None)) = Some r"
    using assms by (auto simp: kept_reviews_def map_filter_def)
  obtain i where i: "i < length pairs" "pairs ! i = p" using p by (auto simp: in_set_conv_nth)
  obtain result where s: "snd p = Inr result" using r by (cases "snd p") simp_all
  have "review_data_of loads reviewer (fst p) result = Inr r \<and> validate_review_scores r = Inr True"
    using r s by (auto split: sum.splits if_splits)
  then show ?thesis using i s by auto
qed

subsection \<open>The review prompt and the patterns of \<open>__init__\<close>\<close>

lemma eval_in_line:
  "contains (map ascii_lower ''2. Reasoning Depth (0-10): Evaluate logical completeness.'') ''eval''"
  by (simp add: ascii_lower_def starts_with_def)

lemma starts_with_append: "starts_with y p \<Longrightarrow> starts_with (y @ z) p"
proof -
  assume a: "starts_with y p"
  have "length (take (length p) y) \<le> length y" by simp
  then have "length p \<le> length y" using a by (simp only: starts_with_def)
  then show ?thesis using a by (simp add: starts_with_def)
qed

lemma contains_append_left: "contains y p \<Longrightarrow> contains (y @ z) p"
proof (induction y)
  case Nil
  then show ?case by (cases z) (simp_all add: starts_with_def)
next
  case (Cons c cs)
  show ?case
  proof (cases "starts_with (c # cs) p")
    case True
    then have "starts_with ((c # cs) @ z) p" by (rule starts_with_append)
    then show ?thesis by simp
  next
    case False
    then have "contains cs p" using Cons.prems by simp
    then have "contains (cs @ z) p" by (rule Cons.IH)
    then show ?thesis by simp
  qed
qed

lemma contains_append_right: "contains y p \<Longrightarrow> contains (x @ y) p"
  by (induction x) simp_all

lemma contains_middle: "contains y p \<Longrightarrow> contains (x @ y @ z) p"
  by (intro contains_append_right contains_append_left)

lemma unlines_line:
  assumes "l \<in> set ls"
  shows "\<exists>a b. unlines ls = a @ l @ b"
proof -
  have ne: "ls \<noteq> []" using assms by auto
  then have ls: "ls = butlast ls @ [last ls]" by simp
  have "l \<in> set (butlast ls) \<or> l = last ls"
  proof -
    have "l \<in> set (butlast ls @ [last ls])" using assms ls by simp
    then show ?thesis by auto
  qed
  then show ?thesis
  proof
    assume "l \<in> set (butlast ls)"
    then obtain us vs where "butlast ls = us @ l # vs" by (meson split_list)
    then have "unlines ls = concat (map (\<lambda>l. l @ [newline]) us) @ l
                 @ ([newline] @ concat (map (\<lambda>l. l @ [newline]) vs) @ last ls)"
      by (simp add: unlines_def)
    then show ?thesis by blast
  next
    assume "l = last ls"
    then have "unlines ls = concat (map (\<lambda>l. l @ [newline]) (butlast ls)) @ l @ []"
      by (simp add: unlines_def)
    then show ?thesis by blast
  qed
qed

lemma review_prompt_contains_eval:
  "contains (map ascii_lower (build_review_prompt task sol)) ''eval''"
proof -
  have "\<exists>a b. build_review_prompt task sol =
      a @ ''2. Reasoning Depth (0-10): Evaluate logical completeness.'' @ b"
    unfolding build_review_prompt_def
    by (rule unlines_line) simp
  then obtain a b where "build_review_prompt task sol =
      a @ ''2. Reasoning Depth (0-10): Evaluate logical completeness.'' @ b"
    by blast
  then show ?thesis
    using contains_middle [OF eval_in_line] by simp
qed

lemma review_prompt_rejected:
  "isl (validate_prompt sec suspicious_patterns_init (build_review_prompt task sol))"
proof (cases "int (length (build_review_prompt task sol)) > max_prompt_length sec")
  case True
  then show ?thesis by (simp add: validate_prompt_def)
next
  case False
  let ?P = "\<lambda>(pattern, alternatives :: string list).
              pattern_found alternatives (build_review_prompt task sol)"
  have "pattern_found [''system'', ''exec'', ''eval'', ''compile'', ''execfile'']
          (build_review_prompt task sol)"
    using review_prompt_contains_eval [of task sol] by (simp add: pattern_found_def)
  then have "\<exists>x\<in>set suspicious_patterns_init. ?P x"
    by (simp add: suspicious_patterns_init_def)
  then have "find ?P suspicious_patterns_init \<noteq> None"
    unfolding find_None_iff by blast
  then obtain x where "find ?P suspicious_patterns_init = Some x" by blast
  then show ?thesis
    using False by (cases x) (simp add: validate_prompt_def)
qed

lemma call_openrouter_patterns:
  "suspicious_patterns (snd (call_openrouter ag now http m prompt)) = suspicious_patterns ag"
  by (simp add: call_openrouter_def Let_def split: prod.splits option.splits sum.splits)

lemma call_openrouter_review_rejected:
  assumes "suspicious_patterns ag = suspicious_patterns_init"
  shows "isl (fst (call_openrouter ag now http m (build_review_prompt task sol)))"
proof -
  obtain e where "validate_prompt (security ag) suspicious_patterns_init (build_review_prompt task sol) = Inl e"
    using review_prompt_rejected [of "security ag" task sol]
    by (cases "validate_prompt (security ag) suspicious_patterns_init (build_review_prompt task sol)") auto
  then show ?thesis
    using assms by (simp add: call_openrouter_def Let_def split: prod.splits option.splits)
qed

lemma gather_calls_review_rejected:
  assumes "suspicious_patterns ag = suspicious_patterns_init"
    and "\<forall>t\<in>set tasks. \<exists>sol. snd t = build_review_prompt task sol"
  shows "\<forall>r\<in>set (fst (gather_calls ag now http i tasks)). isl r"
  using assms
proof (induction tasks arbitrary: ag i)
  case Nil
  show ?case by simp
next
  case (Cons t tasks)
  obtain m prompt where t: "t = (m, prompt)" by (cases t)
  obtain sol where p: "prompt = build_review_prompt task sol" using Cons.prems(2) t by auto
  obtain r ag' where c: "call_openrouter ag (now i) (http i m) m prompt = (r, ag')"
    by (cases "call_openrouter ag (now i) (http i m) m prompt")
  obtain rs ag'' where g: "gather_calls ag' now http (Suc i) tasks = (rs, ag'')"
    by (cases "gather_calls ag' now http (Suc i) tasks")
  have r: "isl r"
    using call_openrouter_review_rejected [OF Cons.prems(1), of "now i" "http i m" m task sol] c p
    by simp
  have "suspicious_patterns ag' = suspicious_patterns_init"
    using call_openrouter_patterns [of ag "now i" "http i m" m prompt] c Cons.prems(1) by simp
  then have "\<forall>r\<in>set (fst (gather_calls ag' now http (Suc i) tasks)). isl r"
    using Cons.prems(2) by (intro Cons.IH) simp_all
  then have "\<forall>r\<in>set rs. isl r" using g by simp
  then show ?case using r by (simp add: t c g)
qed

lemma review_loop_all_failed:
  "\<forall>r\<in>set rs. isl r \<Longrightarrow> review_loop loads reviewer (zip cs rs) = Inr []"
proof (induction cs arbitrary: rs)
  case Nil
  show ?case by simp
next
  case (Cons c cs)
  show ?case
  proof (cases rs)
    case Nil
    then show ?thesis by simp
  next
    case (Cons r rs')
    then obtain e where "r = Inl e" using Cons.prems by (cases r) auto
    then show ?thesis using Cons Cons.IH [of rs'] Cons.prems by simp
  qed
qed

lemma peer_review_shipped_patterns:
  assumes "suspicious_patterns ag = suspicious_patterns_init"
  shows "fst (peer_review ag w task candidates) = Inr []"
proof -
  let ?tasks = "map (\<lambda>prompt. (review_model (config ag), prompt)) (review_prompts task candidates)"
  have "\<forall>t\<in>set ?tasks. \<exists>sol. snd t = build_review_prompt task sol"
    by (auto simp: review_prompts_def)
  then have "\<forall>r\<in>set (fst (gather_calls ag (rev_now w) (rev_http w) 0 ?tasks)). isl r"
    by (rule gather_calls_review_rejected [OF assms])
  then have "review_loop (json_loads w) (review_model (config ag))
               (zip candidates (fst (gather_calls ag (rev_now w) (rev_http w) 0 ?tasks))) = Inr []"
    by (rule review_loop_all_failed)
  then show ?thesis
    by (cases "gather_calls ag (rev_now w) (rev_http w) 0 ?tasks")
       (simp add: peer_review_def Let_def)
qed

lemma call_openrouter_milestones:
  "quality_milestones (snd (call_openrouter ag now http m prompt)) = quality_milestones ag"
  by (simp add: call_openrouter_def Let_def split: prod.splits option.splits sum.splits)

lemma gather_calls_keeps:
  "suspicious_patterns (snd (gather_calls ag now http i tasks)) = suspicious_patterns ag
   \<and> quality_milestones (snd (gather_calls ag now http i tasks)) = quality_milestones ag"
proof (induction tasks arbitrary: ag i)
  case Nil
  show ?case by simp
next
  case (Cons t tasks)
  obtain m prompt where t: "t = (m, prompt)" by (cases t)
  obtain r ag' where c: "call_openrouter ag (now i) (http i m) m prompt = (r, ag')"
    by (cases "call_openrouter ag (now i) (http i m) m prompt")
  obtain rs ag'' where g: "gather_calls ag' now http (Suc i) tasks = (rs, ag'')"
    by (cases "gather_calls ag' now http (Suc i) tasks")
  have "suspicious_patterns ag' = suspicious_patterns ag \<and> quality_milestones ag' = quality_milestones ag"
    using call_openrouter_patterns [of ag "now i" "http i m" m prompt]
      call_openrouter_milestones [of ag "now i" "http i m" m prompt] c by simp
  moreover have "suspicious_patterns ag'' = suspicious_patterns ag' \<and> quality_milestones ag'' = quality_milestones ag'"
    using Cons [of ag' "Suc i"] g by simp
  ultimately show ?case by (simp add: t c g)
qed

lemma generate_candidates_keeps:
  "suspicious_patterns (snd (generate_candidates ag w task)) = suspicious_patterns ag
   \<and> quality_milestones (snd (generate_candidates ag w task)) = quality_milestones ag"
proof (cases "get_active_models ag = []")
  case True
  then show ?thesis by (simp add: generate_candidates_def)
next
  case False
  let ?tasks = "map (\<lambda>model. (model, build_generation_prompt task))
                  (slice_to (num_candidates ag) (permutation w (get_active_models ag)))"
  show ?thesis
    using False gather_calls_keeps [of ag "gen_now w" "gen_http w" 0 ?tasks]
    by (cases "gather_calls ag (gen_now w) (gen_http w) 0 ?tasks")
       (simp add: generate_candidates_def Let_def)
qed

lemma peer_review_keeps:
  "quality_milestones (snd (peer_review ag w task candidates)) = quality_milestones ag"
proof -
  let ?tasks = "map (\<lambda>prompt. (review_model (config ag), prompt)) (review_prompts task candidates)"
  show ?thesis
    using gather_calls_keeps [of ag "rev_now w" "rev_http w" 0 ?tasks]
    by (cases "gather_calls ag (rev_now w) (rev_http w) 0 ?tasks")
       (simp add: peer_review_def Let_def)
qed

lemma solve_shipped_patterns:
  assumes "suspicious_patterns ag = suspicious_patterns_init"
  shows "confidence (fst (solve ag w task)) \<in> {''ready'', ''none'', ''low''}
         \<and> quality_milestones (snd (solve ag w task)) = quality_milestones ag"
proof (cases "key_configured ag")
  case False
  then have "api_key (config ag) = [] \<or> api_key (config ag) = ''your-openrouter-api-key-here''"
    by (auto simp: key_configured_def)
  then show ?thesis by (simp add: solve_def solve_body_def)
next
  case True
  then have k: "api_key (config ag) \<noteq> []" "api_key (config ag) \<noteq> ''your-openrouter-api-key-here''"
    by (simp_all add: key_configured_def)
  obtain g ag1 where g: "generate_candidates ag w task = (g, ag1)"
    by (cases "generate_candidates ag w task")
  have ag1: "suspicious_patterns ag1 = suspicious_patterns_init" "quality_milestones ag1 = quality_milestones ag"
    using generate_candidates_keeps [of ag w task] g assms by simp_all
  show ?thesis
  proof (cases g)
    case (Inl e)
    then show ?thesis using k g ag1 by (simp add: solve_def solve_body_def error_result_def)
  next
    case (Inr candidates)
    show ?thesis
    proof (cases "candidates = []")
      case True
      then show ?thesis using k g ag1 Inr by (simp add: solve_def solve_body_def)
    next
      case False
      obtain p ag2 where p: "peer_review ag1 w task candidates = (p, ag2)"
        by (cases "peer_review ag1 w task candidates")
      have p0: "p = Inr []"
        using peer_review_shipped_patterns [OF ag1(1), of w task candidates] p by simp
      have ag2: "quality_milestones ag2 = quality_milestones ag"
        using peer_review_keeps [of ag1 w task candidates] p ag1(2) by simp
      show ?thesis
        using k g Inr False p p0 ag2
        by (simp add: solve_def solve_body_def select_and_learn_no_reviews)
    qed
  qed
qed

lemma review_loop_validated:
  "review_loop loads reviewer pairs = Inr reviews \<Longrightarrow>
   \<forall>r\<in>set reviews. validate_review_scores r = Inr True"
  using review_loop_Inr [of loads reviewer pairs reviews] kept_reviews_member [of _ loads reviewer pairs]
  by blast

lemma validated_score:
  "validate_review_scores r = Inr True \<Longrightarrow>
   num_of (get_score r) \<noteq> None \<and> 0 \<le> score_key r \<and> score_key r \<le> 10"
  by (auto simp: validate_review_scores_def score_key_def Let_def split: option.splits if_splits)

lemma should_trigger_nonneg:
  assumes "\<forall>m\<in>set ms. 0 \<le> m"
  shows "\<exists>b. should_trigger_improvement ms thr s = Inr b"
proof (cases "ms = []")
  case True
  then have "should_trigger_improvement ms thr s = Inr True"
    by (simp add: should_trigger_improvement_def)
  then show ?thesis by blast
next
  case False
  have ne: "last_ten ms \<noteq> []" by (rule last_ten_nonempty [OF False])
  have "Max (set (last_ten ms)) \<in> set (last_ten ms)" using ne by (intro Max_in) simp_all
  then have "Max (set (last_ten ms)) \<in> set ms"
    unfolding last_ten_def by (rule in_set_dropD)
  then have "0 \<le> Max (set (last_ten ms))" using assms by blast
  then have "Max (set (last_ten ms)) + 1 / 100000 \<noteq> 0" by simp
  then show ?thesis using should_trigger_nonempty [OF False, of thr s] by blast
qed

lemma select_and_learn_validated:
  assumes v: "\<forall>r\<in>set reviews. validate_review_scores r = Inr True"
    and m: "\<forall>m\<in>set (quality_milestones ag). 0 \<le> m \<and> m \<le> 10"
  shows "(\<exists>res. fst (select_and_learn ag w candidates reviews) = Inr res)
         \<and> (\<forall>m\<in>set (quality_milestones (snd (select_and_learn ag w candidates reviews))).
               0 \<le> m \<and> m \<le> 10)"
proof (cases "reviews = []")
  case True
  then show ?thesis using m by (simp add: select_and_learn_no_reviews)
next
  case False
  have num: "\<forall>r\<in>set reviews. num_of (get_score r) \<noteq> None"
    using v validated_score by blast
  have win: "select_winner reviews \<in> set reviews" by (rule select_winner_in [OF False])
  then have s: "0 \<le> score_key (select_winner reviews) \<and> score_key (select_winner reviews) \<le> 10"
    using v validated_score by blast
  have "\<forall>m\<in>set (quality_milestones ag). 0 \<le> m" using m by blast
  then obtain b where b: "should_trigger_improvement (quality_milestones ag) (improvement_threshold ag)
                 (score_key (select_winner reviews)) = Inr b"
    using should_trigger_nonneg by blast
  have 1: "\<exists>res. fst (select_and_learn ag w candidates reviews) = Inr res"
    using False num b by (auto simp: select_and_learn_def Let_def)
  have "quality_milestones (snd (select_and_learn ag w candidates reviews)) =
          (if b then quality_milestones ag @ [score_key (select_winner reviews)]
           else quality_milestones ag)"
    using False num b by (rule learn_append)
  then have 2: "\<forall>m\<in>set (quality_milestones (snd (select_and_learn ag w candidates reviews))).
               0 \<le> m \<and> m \<le> 10"
    using m s by (cases b) auto
  show ?thesis using 1 2 by blast
qed

lemma peer_review_validated:
  "fst (peer_review ag w task candidates) = Inr reviews \<Longrightarrow>
   \<forall>r\<in>set reviews. validate_review_scores r = Inr True"
proof -
  let ?tasks = "map (\<lambda>prompt. (review_model (config ag), prompt)) (review_prompts task candidates)"
  assume a: "fst (peer_review ag w task candidates) = Inr reviews"
  obtain rs ag' where g: "gather_calls ag (rev_now w) (rev_http w) 0 ?tasks = (rs, ag')"
    by (cases "gather_calls ag (rev_now w) (rev_http w) 0 ?tasks")
  have "review_loop (json_loads w) (review_model (config ag)) (zip candidates rs) = Inr reviews"
    using a g by (simp add: peer_review_def Let_def)
  then show ?thesis by (rule review_loop_validated)
qed

lemma solve_milestones_in_bounds:
  assumes m: "\<forall>m\<in>set (quality_milestones ag). 0 \<le> m \<and> m \<le> 10"
  shows "\<forall>m\<in>set (quality_milestones (snd (solve ag w task))). 0 \<le> m \<and> m \<le> 10"
proof (cases "key_configured ag")
  case False
  then have "api_key (config ag) = [] \<or> api_key (config ag) = ''your-openrouter-api-key-here''"
    by (auto simp: key_configured_def)
  then show ?thesis using m by (simp add: solve_def solve_body_def)
next
  case True
  then have k: "api_key (config ag) \<noteq> []" "api_key (config ag) \<noteq> ''your-openrouter-api-key-here''"
    by (simp_all add: key_configured_def)
  obtain g ag1 where g: "generate_candidates ag w task = (g, ag1)"
    by (cases "generate_candidates ag w task")
  have ag1: "quality_milestones ag1 = quality_milestones ag"
    using generate_candidates_keeps [of ag w task] g by simp
  show ?thesis
  proof (cases g)
    case (Inl e)
    then show ?thesis using k g ag1 m by (simp add: solve_def solve_body_def)
  next
    case (Inr candidates)
    show ?thesis
    proof (cases "candidates = []")
      case True
      then show ?thesis using k g ag1 Inr m by (simp add: solve_def solve_body_def)
    next
      case False
      obtain p ag2 where p: "peer_review ag1 w task candidates = (p, ag2)"
        by (cases "peer_review ag1 w task candidates")
      have ag2: "quality_milestones ag2 = quality_milestones ag"
        using peer_review_keeps [of ag1 w task candidates] p ag1 by simp
      show ?thesis
      proof (cases p)
        case (Inl e)
        then show ?thesis using k g Inr False p ag2 m by (simp add: solve_def solve_body_def)
      next
        case reviews: (Inr reviews)
        have v: "\<forall>r\<in>set reviews. validate_review_scores r = Inr True"
          using peer_review_validated [of ag1 w task candidates reviews] p reviews by simp
        have m2: "\<forall>m\<in>set (quality_milestones ag2). 0 \<le> m \<and> m \<le> 10" using m ag2 by simp
        obtain s ag3 where s: "select_and_learn ag2 w candidates reviews = (s, ag3)"
          by (cases "select_and_learn ag2 w candidates reviews")
        have "\<forall>m\<in>set (quality_milestones ag3). 0 \<le> m \<and> m \<le> 10"
          using select_and_learn_validated [OF v m2, of w candidates] s by simp
        then show ?thesis
          using k g Inr False p reviews s
          by (cases s) (simp_all add: solve_def solve_body_def)
      qed
    qed
  qed
qed


section \<open>Verification: runs of the example agents\<close>

lemma request_id_reply: "request_id_of (reply t) = JStr ''req-1''"
  by (simp add: request_id_of_def reply_def)

lemma length_review_prompt:
  "length (build_review_prompt task sol) = length task + length sol + 628"
  by (simp add: build_review_prompt_def unlines_def)

lemma length_generation_prompt: "length (build_generation_prompt task) = length task + 380"
  by (simp add: build_generation_prompt_def unlines_def)

lemma validate_no_patterns:
  "validate_prompt sec [] p =
     (if int (length p) > max_prompt_length sec
      then Inl (Exn PromptInjectionException (''Prompt too long: '' @ str_nat (length p)))
      else Inr True)"
  by (simp add: validate_prompt_def)

lemma active_open: "get_active_models agent_open = models cfg_demo"
  by (simp add: get_active_models_def agent_open_def init_agent_def cfg_demo_def)

lemma extract_reply: "extract_text (reply t) = Inr (py_strip t)"
  by (simp add: extract_text_def reply_def py_contains_def py_getitem_def py_len_def py_index0_def
      py_strip_method_def)

lemma strip_four: "py_strip ''  Four. '' = ''Four.''"
  by (simp add: py_strip_def py_isspace_def)

lemma strip_blank: "py_strip ''   '' = []"
  by (simp add: py_strip_def py_isspace_def)

lemma gen_open:
  "gen_results agent_open world_up ''What is 2 + 2?'' =
     [Inr \<lparr> c_text = ''Four.'', c_model = ''gpt-4o'', c_request_id = Some (JStr ''req-1''), c_error = None \<rparr>,
      Inl (Exn TimeoutError []),
      Inr \<lparr> c_text = [], c_model = ''gemini-2.0-flash-exp'', c_request_id = Some (JStr ''req-1''), c_error = None \<rparr>]"
  apply (simp add: gen_results_def active_open)
  apply (simp add: agent_open_def init_agent_def cfg_demo_def world_up_def slice_to_def
        call_openrouter_def check_rate_limit_def sec_default_def Let_def validate_no_patterns
        length_generation_prompt extract_reply strip_four strip_blank upt_rec request_id_reply)
  done

lemma generate_open:
  "generate_candidates agent_open world_up ''What is 2 + 2?'' =
     (Inr [cand_four], agent_open \<lparr> request_timestamps := [0, 0, 0] \<rparr>)"
  apply (simp add: generate_candidates_def active_open cand_four_def)
  apply (simp add: agent_open_def init_agent_def cfg_demo_def world_up_def slice_to_def
        call_openrouter_def check_rate_limit_def sec_default_def Let_def validate_no_patterns
        length_generation_prompt extract_reply strip_four strip_blank upt_rec request_id_reply
        py_strip_def py_isspace_def)
  done

lemma brace_review: "brace_match review_text = Some review_text"
  by (simp add: brace_match_def review_text_def dquote_def)

lemma strip_review: "py_strip review_text = review_text"
  by (simp add: py_strip_def review_text_def py_isspace_def dquote_def)

lemma review_open:
  "peer_review (agent_open \<lparr> request_timestamps := [0, 0, 0] \<rparr>) world_up ''What is 2 + 2?'' [cand_four] =
     (Inr [review_four], agent_open \<lparr> request_timestamps := [0, 0, 0, 1] \<rparr>)"
  apply (simp add: peer_review_def review_prompts_def cand_four_def py_strip_def py_isspace_def)
  apply (simp add: agent_open_def init_agent_def cfg_demo_def world_up_def
        call_openrouter_def check_rate_limit_def sec_default_def Let_def validate_no_patterns
        length_review_prompt extract_reply upt_rec request_id_reply strip_review
        review_data_of_def parse_review_response_def brace_review loads_demo_def validate_review_scores_def get_score_def
        num_of_def review_four_def)
  done

lemma solve_open:
  "solve agent_open world_up ''What is 2 + 2?'' =
     (\<lparr> solution = JStr ''2 + 2 = 4'', score = JNum (85 / 10), model = JStr ''gpt-4o'',
        processing_time = 2, confidence = ''high'', flaw_corrected = Some (JStr ''terse''),
        error = None, info = None \<rparr>,
      agent_open \<lparr> request_timestamps := [0, 0, 0, 1], quality_milestones := [85 / 10] \<rparr>)"
  apply (simp add: solve_def solve_body_def generate_open review_open)
  apply (simp add: agent_open_def init_agent_def cfg_demo_def select_and_learn_def select_winner_def
      sorted_reviews_def review_four_def get_score_def num_of_def score_key_def
      should_trigger_improvement_def get_default_def world_up_def cand_four_def Let_def
      sec_default_def)
  done

subsection \<open>The shipped agent\<close>

lemma ascii_lower_table:
  "ascii_lower c =
     (case map_of
        [(CHR ''A'', CHR ''a''), (CHR ''B'', CHR ''b''), (CHR ''C'', CHR ''c''), (CHR ''D'', CHR ''d''),
         (CHR ''E'', CHR ''e''), (CHR ''F'', CHR ''f''), (CHR ''G'', CHR ''g''), (CHR ''H'', CHR ''h''),
         (CHR ''I'', CHR ''i''), (CHR ''J'', CHR ''j''), (CHR ''K'', CHR ''k''), (CHR ''L'', CHR ''l''),
         (CHR ''M'', CHR ''m''), (CHR ''N'', CHR ''n''), (CHR ''O'', CHR ''o''), (CHR ''P'', CHR ''p''),
         (CHR ''Q'', CHR ''q''), (CHR ''R'', CHR ''r''), (CHR ''S'', CHR ''s''), (CHR ''T'', CHR ''t''),
         (CHR ''U'', CHR ''u''), (CHR ''V'', CHR ''v''), (CHR ''W'', CHR ''w''), (CHR ''X'', CHR ''x''),
         (CHR ''Y'', CHR ''y''), (CHR ''Z'', CHR ''z'')] c of
        Some l \<Rightarrow> l
      | None \<Rightarrow> c)"
  by (simp add: ascii_lower_def)

lemma starts_with_simps:
  "starts_with s [] = True"
  "starts_with [] (a # p) = False"
  "starts_with (c # cs) (a # p) = (c = a \<and> starts_with cs p)"
  by (auto simp: starts_with_def)

lemma contains_Cons_neq: "c \<noteq> a \<Longrightarrow> contains (c # cs) (a # p) = contains cs (a # p)"
  by (simp add: starts_with_simps)

lemma contains_Cons_eq: "contains (a # cs) (a # p) = (starts_with cs p \<or> contains cs (a # p))"
  by (simp add: starts_with_simps)

lemma contains_Nil: "contains [] (a # p) = False"
  by simp

lemma lower_gen:
  "map ascii_lower (build_generation_prompt ''What is 2 + 2?'') = unlines
     [''you are a specialist ai competing to provide the best solution. solve rigorously:'',
      '''',
      ''what is 2 + 2?'',
      '''',
      ''requirements:'',
      ''- provide factual, accurate information'',
      ''- use logical reasoning with clear steps'',
      ''- offer novel insights beyond obvious answers'',
      ''- be concise but comprehensive'',
      ''- include actionable implementation details'',
      '''',
      ''your solution will be peer-reviewed against other ais. the best solution wins.'']"
  by (simp add: build_generation_prompt_def unlines_def ascii_lower_table newline_def)

lemma generation_prompt_clean:
  "validate_prompt sec_default suspicious_patterns_init (build_generation_prompt ''What is 2 + 2?'')
     = Inr True"
proof -
  have l: "int (length (build_generation_prompt ''What is 2 + 2?'')) \<le> 4096"
    by (simp add: length_generation_prompt)
  have "\<not> pattern_found alts (build_generation_prompt ''What is 2 + 2?'')"
    if "alts \<in> snd ` set suspicious_patterns_init" for alts
  proof -
    have "\<not> contains (map ascii_lower (build_generation_prompt ''What is 2 + 2?'')) p"
      if "p \<in> set alts" for p
    proof -
      have "p \<in> set [''sudo'', ''rm -rf'', ''chmod'', ''passwd'', ''ssh-key'',
                      ''import os'', ''import subprocess'', ''__import__'',
                      ''system'', ''exec'', ''eval'', ''compile'', ''execfile'',
                      ''../'', ''~/'', ''/etc/'', ''/bin/'', ''/var/'']"
        using that \<open>alts \<in> snd ` set suspicious_patterns_init\<close>
        by (auto simp: suspicious_patterns_init_def)
      then show ?thesis
        unfolding lower_gen unlines_def
        by (auto simp: newline_def contains_Cons_neq contains_Cons_eq contains_Nil
              starts_with_simps simp del: contains.simps)
    qed
    then show ?thesis by (simp add: pattern_found_def)
  qed
  then have "find (\<lambda>(pattern, alternatives). pattern_found alternatives
                (build_generation_prompt ''What is 2 + 2?'')) suspicious_patterns_init = None"
    unfolding find_None_iff by force
  then show ?thesis using l by (simp add: validate_prompt_def sec_default_def)
qed

lemma active_shipped: "get_active_models agent_shipped = models cfg_demo"
  by (simp add: get_active_models_def agent_shipped_def init_agent_def cfg_demo_def)

lemma generate_shipped:
  "generate_candidates agent_shipped world_up ''What is 2 + 2?'' =
     (Inr [cand_four], agent_shipped \<lparr> request_timestamps := [0, 0, 0] \<rparr>)"
proof -
  have v: "validate_prompt sec_default suspicious_patterns_init
             (build_generation_prompt ''What is 2 + 2?'') = Inr True"
    by (rule generation_prompt_clean)
  have q: "rate_limit_requests sec_default = 100" "rate_limit_window sec_default = 60"
    by (simp_all add: sec_default_def)
  show ?thesis
    apply (simp add: generate_candidates_def active_shipped cand_four_def)
    apply (simp add: agent_shipped_def init_agent_def cfg_demo_def world_up_def slice_to_def
        call_openrouter_def check_rate_limit_def Let_def v q
        extract_reply strip_four strip_blank upt_rec request_id_reply
        py_strip_def py_isspace_def)
    done
qed

lemma solve_shipped_run:
  "fst (solve agent_shipped world_up ''What is 2 + 2?'') = no_reviews_result world_up cand_four"
proof -
  have k: "api_key (config agent_shipped) = ''sk-demo''"
    by (simp add: agent_shipped_def init_agent_def cfg_demo_def)
  have p: "suspicious_patterns (agent_shipped \<lparr> request_timestamps := [0, 0, 0] \<rparr>)
             = suspicious_patterns_init"
    by (simp add: agent_shipped_def init_agent_def)
  have r: "fst (peer_review (agent_shipped \<lparr> request_timestamps := [0, 0, 0] \<rparr>) world_up
                  ''What is 2 + 2?'' [cand_four]) = Inr []"
    by (rule peer_review_shipped_patterns [OF p])
  have m: "py_max_key (\<lambda>x. length (c_text x)) [cand_four] = cand_four"
    by (simp add: py_max_key_def)
  show ?thesis
    using r
    by (cases "peer_review (agent_shipped \<lparr> request_timestamps := [0, 0, 0] \<rparr>) world_up
                 ''What is 2 + 2?'' [cand_four]")
       (simp add: solve_def solve_body_def k generate_shipped select_and_learn_no_reviews m
          no_reviews_result_def)
qed

lemma active_negative: "get_active_models agent_negative = models cfg_demo"
  by (simp add: get_active_models_def agent_negative_def init_agent_def cfg_demo_def)

lemma active_one_open:
  "get_active_models agent_one_open = [''claude-3-5-sonnet-20241022'', ''gemini-2.0-flash-exp'']"
  by (simp add: get_active_models_def agent_one_open_def agent_shipped_def init_agent_def cfg_demo_def)

lemma active_all_open: "get_active_models agent_all_open = []"
  by (simp add: get_active_models_def agent_all_open_def)

lemma generate_negative:
  "generate_candidates agent_negative world_all ''What is 2 + 2?'' =
     (Inr [candidate_from ''gpt-4o'', candidate_from ''claude-3-5-sonnet-20241022''],
      agent_negative \<lparr> request_timestamps := [0, 0] \<rparr>)"
proof -
  have v: "validate_prompt sec_default suspicious_patterns_init
             (build_generation_prompt ''What is 2 + 2?'') = Inr True"
    by (rule generation_prompt_clean)
  have q: "rate_limit_requests sec_default = 100" "rate_limit_window sec_default = 60"
    by (simp_all add: sec_default_def)
  show ?thesis
    apply (simp add: generate_candidates_def active_negative candidate_from_def)
    apply (simp add: agent_negative_def init_agent_def cfg_demo_def world_all_def world_up_def
        slice_to_def call_openrouter_def check_rate_limit_def Let_def v q
        extract_reply strip_four upt_rec request_id_reply py_strip_def py_isspace_def)
    done
qed

lemma generate_one_open:
  "generate_candidates agent_one_open world_all ''What is 2 + 2?'' =
     (Inr [candidate_from ''claude-3-5-sonnet-20241022'', candidate_from ''gemini-2.0-flash-exp''],
      agent_one_open \<lparr> request_timestamps := [0, 0] \<rparr>)"
proof -
  have v: "validate_prompt sec_default suspicious_patterns_init
             (build_generation_prompt ''What is 2 + 2?'') = Inr True"
    by (rule generation_prompt_clean)
  have q: "rate_limit_requests sec_default = 100" "rate_limit_window sec_default = 60"
    by (simp_all add: sec_default_def)
  show ?thesis
    apply (simp add: generate_candidates_def active_one_open candidate_from_def)
    apply (simp add: agent_one_open_def agent_shipped_def init_agent_def cfg_demo_def
        world_all_def world_up_def
        slice_to_def call_openrouter_def check_rate_limit_def Let_def v q
        extract_reply strip_four upt_rec request_id_reply py_strip_def py_isspace_def)
    done
qed

section \<open>Verification: the claims on the core logic\<close>

text \<open>
  C5, as the code has it. \<open>_generate_candidates\<close> raises exactly when no configured
  backend has a closed circuit, and then it raises \<open>RuntimeError("No available models")\<close>
  and leaves the agent as it was. Otherwise no returned candidate has an empty stripped
  text, every candidate comes from a configured backend whose circuit is closed, and when
  every gathered call failed the result is the empty list, not an error. When the
  candidate count is not negative, the number of candidates is at most
  \<open>min(num_candidates, len(models))\<close>, the value that \<open>__init__\<close> stores; \<open>__init__\<close>
  closes the circuit of every configured backend.
\<close>

theorem generate_candidates_spec:
  "(isl (fst (generate_candidates ag w task))
      \<longleftrightarrow> (\<forall>m\<in>set (models (config ag)). \<not> circuit_closed ag m))
   \<and> (isl (fst (generate_candidates ag w task)) \<longleftrightarrow> get_active_models ag = [])
   \<and> (get_active_models ag = [] \<longrightarrow>
        generate_candidates ag w task = (Inl (Exn RuntimeError ''No available models''), ag))
   \<and> (\<forall>candidates. fst (generate_candidates ag w task) = Inr candidates \<longrightarrow>
        (\<forall>c\<in>set candidates. py_strip (c_text c) \<noteq> [])
        \<and> (set (permutation w (get_active_models ag)) \<subseteq> set (get_active_models ag)
            \<longrightarrow> (\<forall>c\<in>set candidates.
                   c_model c \<in> set (models (config ag)) \<and> circuit_closed ag (c_model c)))
        \<and> (0 \<le> num_candidates ag
             \<and> length (permutation w (get_active_models ag)) = length (get_active_models ag)
            \<longrightarrow> int (length candidates)
                  \<le> min (num_candidates ag) (int (length (models (config ag))))))
   \<and> (get_active_models ag \<noteq> [] \<and> (\<forall>r\<in>set (gen_results ag w task). isl r) \<longrightarrow>
        fst (generate_candidates ag w task) = Inr [])
   \<and> num_candidates (init_agent cfg sec n threshold) = min n (int (length (models cfg)))
   \<and> (\<forall>m. circuit_closed (init_agent cfg sec n threshold) m)
   \<and> get_active_models (init_agent cfg sec n threshold) = models cfg"
proof (intro conjI allI impI ballI)
  show "num_candidates (init_agent cfg sec n threshold) = min n (int (length (models cfg)))"
    by (simp add: init_agent_def)
next
  show "circuit_closed (init_agent cfg sec n threshold) m" for m
    by (rule init_agent_closed)
next
  show "get_active_models (init_agent cfg sec n threshold) = models cfg"
    by (simp add: get_active_models_filter init_agent_closed) (simp add: init_agent_def)
next
  show e: "isl (fst (generate_candidates ag w task)) \<longleftrightarrow> get_active_models ag = []"
    using generate_candidates_ok [of ag w task] generate_candidates_none [of ag w task]
    by (cases "get_active_models ag = []") simp_all
  show "isl (fst (generate_candidates ag w task))
      \<longleftrightarrow> (\<forall>m\<in>set (models (config ag)). \<not> circuit_closed ag m)"
    unfolding e by (rule get_active_models_empty)
next
  assume "get_active_models ag = []"
  then show "generate_candidates ag w task = (Inl (Exn RuntimeError ''No available models''), ag)"
    by (rule generate_candidates_none)
next
  fix candidates c
  assume r: "fst (generate_candidates ag w task) = Inr candidates" and c: "c \<in> set candidates"
  have ne: "get_active_models ag \<noteq> []"
    using r generate_candidates_none [of ag w task] by auto
  have "candidates = valid_results (gen_results ag w task)"
    using r generate_candidates_ok [OF ne, of w task] by simp
  with c show "py_strip (c_text c) \<noteq> []" by (simp add: valid_results_nonempty_text)
next
  fix candidates c
  assume r: "fst (generate_candidates ag w task) = Inr candidates"
    and p: "set (permutation w (get_active_models ag)) \<subseteq> set (get_active_models ag)"
    and c: "c \<in> set candidates"
  note x = candidates_from_active [OF r p c]
  show "c_model c \<in> set (models (config ag))" using x by (rule conjunct1)
  show "circuit_closed ag (c_model c)" using x by (rule conjunct2)
next
  fix candidates
  assume r: "fst (generate_candidates ag w task) = Inr candidates"
    and h: "0 \<le> num_candidates ag
             \<and> length (permutation w (get_active_models ag)) = length (get_active_models ag)"
  have ne: "get_active_models ag \<noteq> []"
    using r generate_candidates_none [of ag w task] by auto
  have eq: "candidates = valid_results (gen_results ag w task)"
    using r generate_candidates_ok [OF ne, of w task] by simp
  have "length candidates \<le> length (gen_results ag w task)"
    unfolding eq by (rule length_valid_results)
  also have "\<dots> = length (slice_to (num_candidates ag) (permutation w (get_active_models ag)))"
    by (simp add: gen_results_def length_gather_calls)
  finally have "int (length candidates)
      \<le> int (length (slice_to (num_candidates ag) (permutation w (get_active_models ag))))"
    by simp
  also have "\<dots> \<le> min (num_candidates ag) (int (length (permutation w (get_active_models ag))))"
    using h by (intro length_slice_to) simp
  also have "\<dots> \<le> min (num_candidates ag) (int (length (models (config ag))))"
    using h length_active [of ag] by simp
  finally show "int (length candidates)
      \<le> min (num_candidates ag) (int (length (models (config ag))))" .
next
  assume "get_active_models ag \<noteq> [] \<and> (\<forall>r\<in>set (gen_results ag w task). isl r)"
  then show "fst (generate_candidates ag w task) = Inr []"
    using generate_candidates_ok [of ag w task] valid_results_all_failed by simp
qed

text \<open>
  C5 as stated does not hold for a negative candidate count, which \<open>__init__\<close> accepts:
  with \<open>num_candidates = -1\<close> and three answering backends the slice \<open>[:-1]\<close> keeps two
  of them, and two candidates are more than \<open>min(-1, 3)\<close>.
\<close>

theorem generate_candidates_negative_count:
  "num_candidates agent_negative = - 1
   \<and> length (models (config agent_negative)) = 3
   \<and> fst (generate_candidates agent_negative world_all ''What is 2 + 2?'')
       = Inr [candidate_from ''gpt-4o'', candidate_from ''claude-3-5-sonnet-20241022'']
   \<and> \<not> int (length [candidate_from ''gpt-4o'', candidate_from ''claude-3-5-sonnet-20241022''])
          \<le> min (num_candidates agent_negative) (int (length (models (config agent_negative))))"
  by (simp add: generate_negative) (simp add: agent_negative_def init_agent_def cfg_demo_def)

lemma active_limited: "get_active_models agent_limited = models cfg_demo"
  by (simp add: get_active_models_def agent_limited_def init_agent_def cfg_demo_def)

lemma gen_limited:
  "gen_results agent_limited world_down task =
     [Inl (Exn SecurityException ''Rate limit exceeded''),
      Inl (Exn SecurityException ''Rate limit exceeded''),
      Inl (Exn SecurityException ''Rate limit exceeded'')]"
  by (simp add: gen_results_def active_limited)
     (simp add: agent_limited_def init_agent_def cfg_demo_def world_down_def slice_to_def
        call_openrouter_def check_rate_limit_def sec_small_def Let_def)

lemma generate_limited:
  "generate_candidates agent_limited world_down task = (Inr [], agent_limited)"
  apply (simp add: generate_candidates_def active_limited)
  apply (simp add: agent_limited_def init_agent_def cfg_demo_def world_down_def slice_to_def
        call_openrouter_def check_rate_limit_def sec_small_def Let_def)
  done

theorem generate_candidates_spec_witness:
  "generate_candidates agent_all_open world_all ''What is 2 + 2?''
     = (Inl (Exn RuntimeError ''No available models''), agent_all_open)
   \<and> models (config agent_all_open)
       = [''gpt-4o'', ''claude-3-5-sonnet-20241022'', ''gemini-2.0-flash-exp'']
   \<and> generate_candidates agent_no_models world_down ''What is 2 + 2?''
       = (Inl (Exn RuntimeError ''No available models''), agent_no_models)
   \<and> \<not> circuit_closed agent_one_open ''gpt-4o''
   \<and> fst (generate_candidates agent_one_open world_all ''What is 2 + 2?'')
       = Inr [candidate_from ''claude-3-5-sonnet-20241022'', candidate_from ''gemini-2.0-flash-exp'']
   \<and> circuit_closed agent_one_open (c_model (candidate_from ''claude-3-5-sonnet-20241022''))
   \<and> circuit_closed agent_one_open (c_model (candidate_from ''gemini-2.0-flash-exp''))
   \<and> fst (generate_candidates agent_limited world_down ''What is 2 + 2?'') = Inr []
   \<and> fst (generate_candidates agent_shipped world_up ''What is 2 + 2?'') = Inr [cand_four]
   \<and> py_strip (c_text cand_four) = ''Four.''
   \<and> int (length [cand_four])
       \<le> min (num_candidates agent_shipped) (int (length (models (config agent_shipped))))
   \<and> get_active_models agent_shipped
       = [''gpt-4o'', ''claude-3-5-sonnet-20241022'', ''gemini-2.0-flash-exp'']"
proof -
  let ?t = "''What is 2 + 2?''"
  let ?c1 = "candidate_from ''claude-3-5-sonnet-20241022''"
  let ?c2 = "candidate_from ''gemini-2.0-flash-exp''"
  note all_open = generate_candidates_spec [where ag = agent_all_open and w = world_all and task = ?t]
  note no_models = generate_candidates_spec [where ag = agent_no_models and w = world_down and task = ?t]
  note one_open = generate_candidates_spec [where ag = agent_one_open and w = world_all and task = ?t]
  note limited = generate_candidates_spec [where ag = agent_limited and w = world_down and task = ?t]
  note shipped = generate_candidates_spec [where ag = agent_shipped and w = world_up and task = ?t
      and cfg = cfg_demo and sec = sec_default and n = 3 and threshold = "15 / 100"]
  have m: "models (config agent_all_open)
             = [''gpt-4o'', ''claude-3-5-sonnet-20241022'', ''gemini-2.0-flash-exp'']"
    by (simp add: agent_all_open_def agent_shipped_def init_agent_def cfg_demo_def)
  have "\<forall>m\<in>set (models (config agent_all_open)). \<not> circuit_closed agent_all_open m"
    by (simp add: circuit_closed_def agent_all_open_def)
  then have "isl (fst (generate_candidates agent_all_open world_all ?t))"
    using all_open by blast
  then have "get_active_models agent_all_open = []" using all_open by blast
  then have a: "generate_candidates agent_all_open world_all ?t
                  = (Inl (Exn RuntimeError ''No available models''), agent_all_open)"
    using all_open by blast
  have "get_active_models agent_no_models = []"
    by (simp add: get_active_models_def agent_no_models_def init_agent_def)
  then have b: "generate_candidates agent_no_models world_down ?t
                  = (Inl (Exn RuntimeError ''No available models''), agent_no_models)"
    using no_models by blast
  have c: "\<not> circuit_closed agent_one_open ''gpt-4o''"
    by (simp add: circuit_closed_def agent_one_open_def)
  have d: "fst (generate_candidates agent_one_open world_all ?t) = Inr [?c1, ?c2]"
    by (simp add: generate_one_open)
  have "set (permutation world_all (get_active_models agent_one_open))
          \<subseteq> set (get_active_models agent_one_open)"
    by (simp add: world_all_def world_up_def)
  then have "\<forall>c\<in>set [?c1, ?c2].
               c_model c \<in> set (models (config agent_one_open)) \<and> circuit_closed agent_one_open (c_model c)"
    using one_open d by blast
  then have e: "circuit_closed agent_one_open (c_model ?c1)"
    and f: "circuit_closed agent_one_open (c_model ?c2)"
    by simp_all
  have "get_active_models agent_limited \<noteq> []
          \<and> (\<forall>r\<in>set (gen_results agent_limited world_down ?t). isl r)"
    by (simp add: active_limited cfg_demo_def gen_limited)
  then have g: "fst (generate_candidates agent_limited world_down ?t) = Inr []"
    using limited by blast
  have h: "fst (generate_candidates agent_shipped world_up ?t) = Inr [cand_four]"
    by (simp add: generate_shipped)
  have "\<forall>c\<in>set [cand_four]. py_strip (c_text c) \<noteq> []" using shipped h by blast
  have i: "py_strip (c_text cand_four) = ''Four.''"
    by (simp add: cand_four_def py_strip_def py_isspace_def)
  have "0 \<le> num_candidates agent_shipped
          \<and> length (permutation world_up (get_active_models agent_shipped))
              = length (get_active_models agent_shipped)"
    by (simp add: agent_shipped_def init_agent_def world_up_def cfg_demo_def)
  then have j: "int (length [cand_four])
       \<le> min (num_candidates agent_shipped) (int (length (models (config agent_shipped))))"
    using shipped h by blast
  have "get_active_models (init_agent cfg_demo sec_default 3 (15 / 100)) = models cfg_demo"
    using shipped by blast
  then have k: "get_active_models agent_shipped
       = [''gpt-4o'', ''claude-3-5-sonnet-20241022'', ''gemini-2.0-flash-exp'']"
    by (simp add: agent_shipped_def cfg_demo_def)
  show ?thesis using a m b c d e f g h i j k by (simp only: simp_thms)
qed

text \<open>
  C10. With an empty API key or the placeholder key, \<open>solve\<close> returns at once the record
  with confidence \<open>ready\<close>, score 0, model \<open>system\<close> and processing time 0, whatever the
  world would answer, and the agent (rate-limit window and milestone log included) is
  unchanged.
\<close>

theorem solve_unconfigured_key:
  assumes "api_key (config ag) = [] \<or> api_key (config ag) = ''your-openrouter-api-key-here''"
  shows "solve ag w task = (ready_result, ag)
         \<and> confidence ready_result = ''ready'' \<and> score ready_result = JNum 0
         \<and> model ready_result = JStr ''system'' \<and> processing_time ready_result = 0"
  using assms by (simp add: solve_def solve_body_def ready_result_def)

theorem solve_unconfigured_key_witness:
  "api_key (config agent_unset) = ''your-openrouter-api-key-here''
   \<and> solve agent_unset world_up ''What is 2 + 2?'' = (ready_result, agent_unset)
   \<and> solve agent_unset world_down ''What is 2 + 2?'' = (ready_result, agent_unset)
   \<and> solve (agent_open \<lparr> config := cfg_demo \<lparr> api_key := [] \<rparr> \<rparr>) world_up ''What is 2 + 2?''
       = (ready_result, agent_open \<lparr> config := cfg_demo \<lparr> api_key := [] \<rparr> \<rparr>)"
proof -
  have k: "api_key (config agent_unset) = ''your-openrouter-api-key-here''"
    by (simp add: agent_unset_def init_agent_def)
  show ?thesis
    using k solve_unconfigured_key [of agent_unset world_up "''What is 2 + 2?''"]
      solve_unconfigured_key [of agent_unset world_down "''What is 2 + 2?''"]
      solve_unconfigured_key [of "agent_open \<lparr> config := cfg_demo \<lparr> api_key := [] \<rparr> \<rparr>" world_up
        "''What is 2 + 2?''"]
    by simp
qed

text \<open>
  C1. \<open>solve\<close> returns a record for every task. Whatever the body of its \<open>try\<close> block
  raises becomes the record with score 0, model \<open>error\<close> and the exception's message in
  the \<open>error\<close> field; this holds for an exception of each stage (candidate generation,
  peer review, selection).
\<close>

theorem solve_never_raises:
  "(\<exists>result ag'. solve ag w task = (result, ag'))
   \<and> (solve_body ag w task = (Inl e, ag1) \<longrightarrow>
         solve ag w task = (error_result w e, ag1))
   \<and> (solve_body ag w task = (Inr result, ag1) \<longrightarrow> solve ag w task = (result, ag1))
   \<and> score (error_result w e) = JNum 0
   \<and> model (error_result w e) = JStr ''error''
   \<and> error (error_result w e) = Some (exn_msg e)
   \<and> (key_configured ag \<and> generate_candidates ag w task = (Inl e, ag1) \<longrightarrow>
         solve ag w task = (error_result w e, ag1))
   \<and> (key_configured ag \<and> generate_candidates ag w task = (Inr candidates, ag1)
        \<and> candidates \<noteq> [] \<and> peer_review ag1 w task candidates = (Inl e, ag2) \<longrightarrow>
         solve ag w task = (error_result w e, ag2))
   \<and> (key_configured ag \<and> generate_candidates ag w task = (Inr candidates, ag1)
        \<and> candidates \<noteq> [] \<and> peer_review ag1 w task candidates = (Inr reviews, ag2)
        \<and> select_and_learn ag2 w candidates reviews = (Inl e, ag3) \<longrightarrow>
         solve ag w task = (error_result w e, ag3))"
proof (intro conjI impI)
  show "\<exists>result ag'. solve ag w task = (result, ag')"
    by (cases "solve ag w task") simp
qed (simp_all add: solve_def solve_body_def error_result_def key_configured_def)

lemma generate_no_models:
  "generate_candidates agent_no_models w task =
     (Inl (Exn RuntimeError ''No available models''), agent_no_models)"
  by (simp add: generate_candidates_def get_active_models_def agent_no_models_def init_agent_def)

lemma review_bad_score:
  "peer_review (agent_open \<lparr> request_timestamps := [0, 0, 0] \<rparr>) world_bad_score
      ''What is 2 + 2?'' [cand_four] =
     (Inl (Exn TypeError ''<= not supported between these instances''),
      agent_open \<lparr> request_timestamps := [0, 0, 0, 1] \<rparr>)"
  apply (simp add: peer_review_def review_prompts_def cand_four_def py_strip_def py_isspace_def)
  apply (simp add: agent_open_def init_agent_def cfg_demo_def world_up_def world_bad_score_def
        call_openrouter_def check_rate_limit_def sec_default_def Let_def validate_no_patterns
        length_review_prompt extract_reply upt_rec request_id_reply strip_review
        review_data_of_def parse_review_response_def brace_review loads_demo_def validate_review_scores_def get_score_def
        num_of_def)
  done

lemma generate_bad_score:
  "generate_candidates agent_open world_bad_score ''What is 2 + 2?'' =
     (Inr [cand_four], agent_open \<lparr> request_timestamps := [0, 0, 0] \<rparr>)"
proof -
  have "generate_candidates ag (w \<lparr> json_loads := f \<rparr>) task = generate_candidates ag w task"
    for ag w f task
    by (simp add: generate_candidates_def Let_def)
  then show ?thesis using generate_open by (simp add: world_bad_score_def)
qed

theorem solve_never_raises_witness:
  "solve agent_no_models world_down ''What is 2 + 2?'' =
     (\<lparr> solution = JStr ''An error occurred: No available models'', score = JNum 0,
        model = JStr ''error'', processing_time = 1, confidence = ''none'',
        flaw_corrected = None, error = Some ''No available models'', info = None \<rparr>,
      agent_no_models)
   \<and> solve agent_open world_bad_score ''What is 2 + 2?'' =
     (\<lparr> solution = JStr ''An error occurred: <= not supported between these instances'',
        score = JNum 0, model = JStr ''error'', processing_time = 2, confidence = ''none'',
        flaw_corrected = None,
        error = Some ''<= not supported between these instances'', info = None \<rparr>,
      agent_open \<lparr> request_timestamps := [0, 0, 0, 1] \<rparr>)"
proof -
  have k1: "key_configured agent_no_models"
    by (simp add: key_configured_def agent_no_models_def init_agent_def cfg_demo_def)
  have k2: "key_configured agent_open"
    by (simp add: key_configured_def agent_open_def init_agent_def cfg_demo_def)
  have t: "end_time world_down - start_time world_down = 1"
    "end_time world_bad_score - start_time world_bad_score = 2"
    by (simp_all add: world_down_def world_bad_score_def world_up_def)
  show ?thesis
    using solve_never_raises [of agent_no_models world_down "''What is 2 + 2?''"
        "Exn RuntimeError ''No available models''" agent_no_models]
      solve_never_raises [of agent_open world_bad_score "''What is 2 + 2?''"
        "Exn TypeError ''<= not supported between these instances''"
        "agent_open \<lparr> request_timestamps := [0, 0, 0] \<rparr>" _ "[cand_four]"
        "agent_open \<lparr> request_timestamps := [0, 0, 0, 1] \<rparr>"]
      k1 k2 t generate_no_models [of world_down "''What is 2 + 2?''"] generate_bad_score
      review_bad_score
    by (simp add: error_result_def)
qed

lemma select_and_learn_returns:
  assumes "reviews \<noteq> []" and "\<forall>r\<in>set reviews. num_of (get_score r) \<noteq> None"
    and "should_trigger_improvement (quality_milestones ag) (improvement_threshold ag)
           (score_key (select_winner reviews)) = Inr trigger"
  shows "select_and_learn ag w candidates reviews =
           (Inr (winner_result w (select_winner reviews)),
            if trigger
            then ag \<lparr> quality_milestones := quality_milestones ag @ [score_key (select_winner reviews)] \<rparr>
            else ag)"
  using assms by (simp add: select_and_learn_def winner_result_def Let_def)

lemma select_and_learn_returns_validated:
  assumes ne: "reviews \<noteq> []"
    and v: "\<forall>r\<in>set reviews. validate_review_scores r = Inr True"
    and m: "\<forall>m\<in>set (quality_milestones ag). 0 \<le> m"
  shows "fst (select_and_learn ag w candidates reviews) = Inr (winner_result w (select_winner reviews))"
proof -
  have num: "\<forall>r\<in>set reviews. num_of (get_score r) \<noteq> None"
    using v validated_score by blast
  obtain b where "should_trigger_improvement (quality_milestones ag) (improvement_threshold ag)
                 (score_key (select_winner reviews)) = Inr b"
    using should_trigger_nonneg [OF m] by blast
  then show ?thesis using select_and_learn_returns [OF ne num] by simp
qed

lemma solve_winner:
  assumes k: "key_configured ag"
    and g: "generate_candidates ag w task = (Inr candidates, ag1)"
    and nc: "candidates \<noteq> []"
    and r: "peer_review ag1 w task candidates = (Inr reviews, ag2)"
    and ne: "reviews \<noteq> []"
    and m: "\<forall>m\<in>set (quality_milestones ag). 0 \<le> m"
  shows "fst (solve ag w task) = winner_result w (select_winner reviews)"
proof -
  have v: "\<forall>r\<in>set reviews. validate_review_scores r = Inr True"
    using peer_review_validated [of ag1 w task candidates reviews] r by simp
  have "quality_milestones ag1 = quality_milestones ag"
    using generate_candidates_keeps [of ag w task] g by simp
  moreover have "quality_milestones ag2 = quality_milestones ag1"
    using peer_review_keeps [of ag1 w task candidates] r by simp
  ultimately have m2: "\<forall>m\<in>set (quality_milestones ag2). 0 \<le> m" using m by simp
  have s: "fst (select_and_learn ag2 w candidates reviews) = Inr (winner_result w (select_winner reviews))"
    by (rule select_and_learn_returns_validated [OF ne v m2])
  have "solve_body ag w task = select_and_learn ag2 w candidates reviews"
    using k g nc r by (simp add: solve_body_def key_configured_def)
  then show ?thesis using s
    by (cases "select_and_learn ag2 w candidates reviews") (simp add: solve_def)
qed

text \<open>
  C6. For a non-empty review list the winner is the head of the stable descending sort
  by score: it has the greatest score and, among the reviews with the greatest score, it
  is the first of the input. For a non-empty list of reviews with numeric scores the code
  from the reviews on returns the record of the winner, whose confidence is \<open>high\<close> iff
  the winning score is greater than 7 and \<open>medium\<close> otherwise, and so does \<open>solve\<close> when
  the review stage produced that list. With no candidates \<open>solve\<close> returns confidence
  \<open>none\<close> and score 0; with candidates but no review it returns the first candidate of
  greatest text length with confidence \<open>low\<close> and score 5.
\<close>

theorem select_winner_spec:
  "(reviews \<noteq> [] \<longrightarrow>
      select_winner reviews = hd (sorted_reviews reviews)
      \<and> sorted (map (\<lambda>review. - score_key review) (sorted_reviews reviews))
      \<and> (\<forall>k. filter (\<lambda>r. score_key r = k) (sorted_reviews reviews)
               = filter (\<lambda>r. score_key r = k) reviews)
      \<and> score_key (select_winner reviews) = Max (score_key ` set reviews)
      \<and> find (\<lambda>r. score_key r = Max (score_key ` set reviews)) reviews
            = Some (select_winner reviews)
      \<and> ((\<forall>r\<in>set reviews. num_of (get_score r) \<noteq> None)
           \<and> should_trigger_improvement (quality_milestones ag) (improvement_threshold ag)
                (score_key (select_winner reviews)) = Inr trigger \<longrightarrow>
            select_and_learn ag w candidates reviews =
              (Inr (winner_result w (select_winner reviews)),
               if trigger
               then ag \<lparr> quality_milestones :=
                            quality_milestones ag @ [score_key (select_winner reviews)] \<rparr>
               else ag))
      \<and> ((\<forall>r\<in>set reviews. validate_review_scores r = Inr True)
           \<and> (\<forall>m\<in>set (quality_milestones ag). 0 \<le> m) \<longrightarrow>
            fst (select_and_learn ag w candidates reviews)
              = Inr (winner_result w (select_winner reviews)))
      \<and> (select_and_learn ag w candidates reviews = (Inr res, ag') \<longrightarrow>
            confidence res = (if score_key (select_winner reviews) > 7 then ''high'' else ''medium'')
            \<and> score res = get_score (select_winner reviews)
            \<and> solution res = get_default (select_winner reviews) ''improved''
                                (get_default (select_winner reviews) ''original'' (JStr []))
            \<and> model res = get_default (select_winner reviews) ''model'' (JStr ''unknown'')))
   \<and> (key_configured ag \<and> generate_candidates ag w task = (Inr [], ag1) \<longrightarrow>
        solve ag w task = (no_candidates_result w, ag1)
        \<and> confidence (no_candidates_result w) = ''none''
        \<and> score (no_candidates_result w) = JNum 0)
   \<and> (candidates \<noteq> [] \<longrightarrow>
        select_and_learn ag w candidates [] =
          (Inr (no_reviews_result w (py_max_key (\<lambda>x. length (c_text x)) candidates)), ag)
        \<and> py_max_key (\<lambda>x. length (c_text x)) candidates \<in> set candidates
        \<and> (\<forall>c\<in>set candidates.
               length (c_text c) \<le> length (c_text (py_max_key (\<lambda>x. length (c_text x)) candidates)))
        \<and> confidence (no_reviews_result w (py_max_key (\<lambda>x. length (c_text x)) candidates)) = ''low''
        \<and> score (no_reviews_result w (py_max_key (\<lambda>x. length (c_text x)) candidates)) = JNum 5)
   \<and> (key_configured ag \<and> generate_candidates ag w task = (Inr candidates, ag1)
        \<and> candidates \<noteq> [] \<and> peer_review ag1 w task candidates = (Inr [], ag2) \<longrightarrow>
        solve ag w task =
          (no_reviews_result w (py_max_key (\<lambda>x. length (c_text x)) candidates), ag2))
   \<and> (key_configured ag \<and> generate_candidates ag w task = (Inr candidates, ag1)
        \<and> candidates \<noteq> [] \<and> peer_review ag1 w task candidates = (Inr reviews, ag2)
        \<and> reviews \<noteq> [] \<and> (\<forall>m\<in>set (quality_milestones ag). 0 \<le> m) \<longrightarrow>
        fst (solve ag w task) = winner_result w (select_winner reviews))
   \<and> confidence (winner_result w winner) = (if score_key winner > 7 then ''high'' else ''medium'')
   \<and> (confidence (winner_result w winner) = ''high'' \<longleftrightarrow> score_key winner > 7)
   \<and> score (winner_result w winner) = get_score winner
   \<and> solution (winner_result w winner)
       = get_default winner ''improved'' (get_default winner ''original'' (JStr []))
   \<and> model (winner_result w winner) = get_default winner ''model'' (JStr ''unknown'')"
proof (intro conjI impI allI ballI)
  assume ne: "reviews \<noteq> []"
  show "select_winner reviews = hd (sorted_reviews reviews)" by (rule select_winner_hd)
  show "sorted (map (\<lambda>review. - score_key review) (sorted_reviews reviews))"
    by (rule sorted_reviews_props(3))
  show "filter (\<lambda>r. score_key r = k) (sorted_reviews reviews) = filter (\<lambda>r. score_key r = k) reviews"
    for k by (rule sorted_reviews_props(4))
  show "score_key (select_winner reviews) = Max (score_key ` set reviews)"
    by (rule select_winner_Max [OF ne])
  show "find (\<lambda>r. score_key r = Max (score_key ` set reviews)) reviews = Some (select_winner reviews)"
    by (rule select_winner_first [OF ne])
  show "select_and_learn ag w candidates reviews =
              (Inr (winner_result w (select_winner reviews)),
               if trigger
               then ag \<lparr> quality_milestones :=
                            quality_milestones ag @ [score_key (select_winner reviews)] \<rparr>
               else ag)"
    if "(\<forall>r\<in>set reviews. num_of (get_score r) \<noteq> None)
           \<and> should_trigger_improvement (quality_milestones ag) (improvement_threshold ag)
                (score_key (select_winner reviews)) = Inr trigger"
    using select_and_learn_returns [OF ne, of ag trigger w candidates] that by blast
  show "fst (select_and_learn ag w candidates reviews)
              = Inr (winner_result w (select_winner reviews))"
    if "(\<forall>r\<in>set reviews. validate_review_scores r = Inr True)
           \<and> (\<forall>m\<in>set (quality_milestones ag). 0 \<le> m)"
    using select_and_learn_returns_validated [OF ne, of ag w candidates] that by blast
  assume r: "select_and_learn ag w candidates reviews = (Inr res, ag')"
  note x = select_and_learn_winner_result [OF ne r]
  show "confidence res = (if score_key (select_winner reviews) > 7 then ''high'' else ''medium'')"
    using x by blast
  show "score res = get_score (select_winner reviews)" using x by blast
  show "solution res = get_default (select_winner reviews) ''improved''
                                (get_default (select_winner reviews) ''original'' (JStr []))"
    using x by blast
  show "model res = get_default (select_winner reviews) ''model'' (JStr ''unknown'')"
    using x by blast
next
  assume "key_configured ag \<and> generate_candidates ag w task = (Inr [], ag1)"
  then show "solve ag w task = (no_candidates_result w, ag1)"
    by (simp add: solve_def solve_body_def key_configured_def no_candidates_result_def)
next
  show "confidence (no_candidates_result w) = ''none''" by (simp add: no_candidates_result_def)
  show "score (no_candidates_result w) = JNum 0" by (simp add: no_candidates_result_def)
next
  assume ne: "candidates \<noteq> []"
  show "select_and_learn ag w candidates [] =
          (Inr (no_reviews_result w (py_max_key (\<lambda>x. length (c_text x)) candidates)), ag)"
    by (simp add: select_and_learn_no_reviews no_reviews_result_def)
  show "py_max_key (\<lambda>x. length (c_text x)) candidates \<in> set candidates"
    by (rule py_max_key_in [OF ne])
  show "length (c_text c) \<le> length (c_text (py_max_key (\<lambda>x. length (c_text x)) candidates))"
    if "c \<in> set candidates" for c
    using py_max_key_ge [where key = "\<lambda>x. length (c_text x)", OF ne that] .
  show "confidence (no_reviews_result w (py_max_key (\<lambda>x. length (c_text x)) candidates)) = ''low''"
    by (simp add: no_reviews_result_def)
  show "score (no_reviews_result w (py_max_key (\<lambda>x. length (c_text x)) candidates)) = JNum 5"
    by (simp add: no_reviews_result_def)
next
  assume "key_configured ag \<and> generate_candidates ag w task = (Inr candidates, ag1)
        \<and> candidates \<noteq> [] \<and> peer_review ag1 w task candidates = (Inr [], ag2)"
  then show "solve ag w task =
          (no_reviews_result w (py_max_key (\<lambda>x. length (c_text x)) candidates), ag2)"
    by (simp add: solve_def solve_body_def key_configured_def select_and_learn_no_reviews
          no_reviews_result_def)
next
  assume "key_configured ag \<and> generate_candidates ag w task = (Inr candidates, ag1)
        \<and> candidates \<noteq> [] \<and> peer_review ag1 w task candidates = (Inr reviews, ag2)
        \<and> reviews \<noteq> [] \<and> (\<forall>m\<in>set (quality_milestones ag). 0 \<le> m)"
  then show "fst (solve ag w task) = winner_result w (select_winner reviews)"
    using solve_winner [of ag w task candidates ag1 reviews ag2] by blast
next
  show "confidence (winner_result w winner) = (if score_key winner > 7 then ''high'' else ''medium'')"
    by (simp add: winner_result_def)
  show "confidence (winner_result w winner) = ''high'' \<longleftrightarrow> score_key winner > 7"
    by (simp add: winner_result_def)
  show "score (winner_result w winner) = get_score winner" by (simp add: winner_result_def)
  show "solution (winner_result w winner)
       = get_default winner ''improved'' (get_default winner ''original'' (JStr []))"
    by (simp add: winner_result_def)
  show "model (winner_result w winner) = get_default winner ''model'' (JStr ''unknown'')"
    by (simp add: winner_result_def)
qed

lemma score_key_review_of: "score_key (review_of s m) = s"
  by (simp add: score_key_def get_score_def review_of_def num_of_def)

lemma get_score_review_of: "get_score (review_of s m) = JNum s"
  by (simp add: get_score_def review_of_def)

lemma num_score_review_of: "num_of (get_score (review_of s m)) = Some s"
  by (simp add: get_score_def review_of_def num_of_def)

lemma winner_example:
  "select_winner [review_of 6 ''a'', review_of 9 ''b'', review_of (15 / 2) ''c''] = review_of 9 ''b''"
  "select_winner [review_of 6 ''a'', review_of 9 ''b'', review_of 9 ''c''] = review_of 9 ''b''"
  "select_winner [review_of 7 ''a''] = review_of 7 ''a''"
  by (simp_all add: select_winner_def sorted_reviews_def score_key_review_of)

lemma learn_example_high:
  "select_and_learn agent_demo world_up [cand_four]
       [review_of 6 ''a'', review_of 9 ''b'', review_of (15 / 2) ''c''] =
     (Inr \<lparr> solution = JStr ''answer of b'', score = JNum 9, model = JStr ''b'',
             processing_time = 2, confidence = ''high'',
             flaw_corrected = Some (JStr ''NONE''), error = None, info = None \<rparr>,
      agent_demo \<lparr> quality_milestones := [9] \<rparr>)"
  apply (simp add: select_and_learn_def winner_example get_score_review_of score_key_review_of
      num_of_def Let_def)
  apply (simp add: agent_demo_def init_agent_def should_trigger_improvement_def world_up_def
      get_default_def review_of_def get_score_def score_key_def num_of_def)
  done

lemma learn_example_medium:
  "select_and_learn agent_demo world_up [cand_four] [review_of 7 ''a''] =
     (Inr \<lparr> solution = JStr ''answer of a'', score = JNum 7, model = JStr ''a'',
             processing_time = 2, confidence = ''medium'',
             flaw_corrected = Some (JStr ''NONE''), error = None, info = None \<rparr>,
      agent_demo \<lparr> quality_milestones := [7] \<rparr>)"
  apply (simp add: select_and_learn_def winner_example get_score_review_of score_key_review_of
      num_of_def Let_def)
  apply (simp add: agent_demo_def init_agent_def should_trigger_improvement_def world_up_def
      get_default_def review_of_def get_score_def score_key_def num_of_def)
  done

lemma longest_example:
  "py_max_key (\<lambda>x. length (c_text x))
     [candidate_of ''ab'' ''m1'', candidate_of ''abcd'' ''m2'', candidate_of ''wxyz'' ''m3'']
   = candidate_of ''abcd'' ''m2''"
  by (simp add: py_max_key_def candidate_of_def)

lemma review_timeout:
  "peer_review (agent_open \<lparr> request_timestamps := [0, 0, 0] \<rparr>)
      (world_up \<lparr> rev_http := (\<lambda>i model prompt attempt. Timeout) \<rparr>)
      ''What is 2 + 2?'' [cand_four] =
     (Inr [], agent_open \<lparr> request_timestamps := [0, 0, 0, 1] \<rparr>)"
  apply (simp add: peer_review_def review_prompts_def cand_four_def py_strip_def py_isspace_def)
  apply (simp add: agent_open_def init_agent_def cfg_demo_def world_up_def
        call_openrouter_def check_rate_limit_def sec_default_def Let_def validate_no_patterns
        length_review_prompt upt_rec)
  done

lemma generate_candidates_other_world:
  "generate_candidates ag (w \<lparr> rev_http := f \<rparr>) task = generate_candidates ag w task"
  "generate_candidates ag (w \<lparr> json_loads := g \<rparr>) task = generate_candidates ag w task"
  by (simp_all add: generate_candidates_def Let_def)

lemma winner_result_review_of:
  "winner_result world_up (review_of s m) =
     \<lparr> solution = JStr (''answer of '' @ m), score = JNum s, model = JStr m,
       processing_time = 2, confidence = (if s > 7 then ''high'' else ''medium''),
       flaw_corrected = Some (JStr ''NONE''), error = None, info = None \<rparr>"
  by (simp add: winner_result_def review_of_def get_default_def get_score_def score_key_def
        num_of_def world_up_def)

lemma winner_result_four:
  "winner_result world_up review_four =
     \<lparr> solution = JStr ''2 + 2 = 4'', score = JNum (85 / 10), model = JStr ''gpt-4o'',
       processing_time = 2, confidence = ''high'', flaw_corrected = Some (JStr ''terse''),
       error = None, info = None \<rparr>"
  by (simp add: winner_result_def review_four_def get_default_def get_score_def score_key_def
        num_of_def world_up_def cand_four_def)

lemma trigger_examples:
  "should_trigger_improvement (quality_milestones agent_demo) (improvement_threshold agent_demo) s
     = Inr True"
  "should_trigger_improvement (quality_milestones (agent_demo \<lparr> quality_milestones := [9] \<rparr>))
     (improvement_threshold (agent_demo \<lparr> quality_milestones := [9] \<rparr>)) 7 = Inr False"
  by (simp_all add: agent_demo_def init_agent_def should_trigger_improvement_def py_max_key_def
        last_ten_def Let_def)

theorem select_winner_spec_witness:
  "select_winner [review_of 6 ''a'', review_of 9 ''b'', review_of (15 / 2) ''c''] = review_of 9 ''b''
   \<and> find (\<lambda>r. score_key r = Max (score_key ` set [review_of 6 ''a'', review_of 9 ''b'', review_of 9 ''c'']))
         [review_of 6 ''a'', review_of 9 ''b'', review_of 9 ''c''] = Some (review_of 9 ''b'')
   \<and> select_and_learn agent_demo world_up [cand_four]
         [review_of 6 ''a'', review_of 9 ''b'', review_of (15 / 2) ''c'']
       = (Inr \<lparr> solution = JStr ''answer of b'', score = JNum 9, model = JStr ''b'',
                 processing_time = 2, confidence = ''high'',
                 flaw_corrected = Some (JStr ''NONE''), error = None, info = None \<rparr>,
          agent_demo \<lparr> quality_milestones := [9] \<rparr>)
   \<and> select_and_learn agent_demo world_up [cand_four] [review_of 7 ''a'']
       = (Inr \<lparr> solution = JStr ''answer of a'', score = JNum 7, model = JStr ''a'',
                 processing_time = 2, confidence = ''medium'',
                 flaw_corrected = Some (JStr ''NONE''), error = None, info = None \<rparr>,
          agent_demo \<lparr> quality_milestones := [7] \<rparr>)
   \<and> select_and_learn (agent_demo \<lparr> quality_milestones := [9] \<rparr>) world_up [cand_four]
         [review_of 7 ''a'']
       = (Inr \<lparr> solution = JStr ''answer of a'', score = JNum 7, model = JStr ''a'',
                 processing_time = 2, confidence = ''medium'',
                 flaw_corrected = Some (JStr ''NONE''), error = None, info = None \<rparr>,
          agent_demo \<lparr> quality_milestones := [9] \<rparr>)
   \<and> fst (solve agent_open world_up ''What is 2 + 2?'')
       = \<lparr> solution = JStr ''2 + 2 = 4'', score = JNum (85 / 10), model = JStr ''gpt-4o'',
           processing_time = 2, confidence = ''high'', flaw_corrected = Some (JStr ''terse''),
           error = None, info = None \<rparr>
   \<and> solve agent_limited world_down ''What is 2 + 2?'' = (no_candidates_result world_down, agent_limited)
   \<and> select_and_learn agent_demo world_down
         [candidate_of ''ab'' ''m1'', candidate_of ''abcd'' ''m2'', candidate_of ''wxyz'' ''m3''] []
       = (Inr (no_reviews_result world_down (candidate_of ''abcd'' ''m2'')), agent_demo)
   \<and> solve agent_open (world_up \<lparr> rev_http := (\<lambda>i model prompt attempt. Timeout) \<rparr>) ''What is 2 + 2?''
       = (no_reviews_result (world_up \<lparr> rev_http := (\<lambda>i model prompt attempt. Timeout) \<rparr>) cand_four,
          agent_open \<lparr> request_timestamps := [0, 0, 0, 1] \<rparr>)
   \<and> fst (solve agent_shipped world_up ''What is 2 + 2?'') = no_reviews_result world_up cand_four"
proof -
  let ?w = "world_up \<lparr> rev_http := (\<lambda>i model prompt attempt. Timeout) \<rparr>"
  let ?r1 = "[review_of 6 ''a'', review_of 9 ''b'', review_of (15 / 2) ''c'']"
  let ?r2 = "[review_of 6 ''a'', review_of 9 ''b'', review_of 9 ''c'']"
  let ?r3 = "[review_of 7 ''a'']"
  let ?nine = "agent_demo \<lparr> quality_milestones := [9] \<rparr>"
  let ?hi = "\<lparr> solution = JStr ''answer of b'', score = JNum 9, model = JStr ''b'',
             processing_time = 2, confidence = ''high'',
             flaw_corrected = Some (JStr ''NONE''), error = None, info = None \<rparr>"
  let ?me = "\<lparr> solution = JStr ''answer of a'', score = JNum 7, model = JStr ''a'',
             processing_time = 2, confidence = ''medium'',
             flaw_corrected = Some (JStr ''NONE''), error = None, info = None \<rparr>"
  let ?cs = "[candidate_of ''ab'' ''m1'', candidate_of ''abcd'' ''m2'', candidate_of ''wxyz'' ''m3'']"
  have k1: "key_configured agent_limited"
    by (simp add: key_configured_def agent_limited_def init_agent_def cfg_demo_def)
  have k2: "key_configured agent_open"
    by (simp add: key_configured_def agent_open_def init_agent_def cfg_demo_def)
  have g: "generate_candidates agent_open ?w ''What is 2 + 2?'' =
             (Inr [cand_four], agent_open \<lparr> request_timestamps := [0, 0, 0] \<rparr>)"
    by (simp add: generate_candidates_other_world generate_open)
  have m: "py_max_key (\<lambda>x. length (c_text x)) [cand_four] = cand_four"
    by (simp add: py_max_key_def)
  have a: "select_winner ?r1 = review_of 9 ''b''" by (rule winner_example(1))
  have ne2: "?r2 \<noteq> []" and ne1: "?r1 \<noteq> []" and ne3: "?r3 \<noteq> []"
    and nec: "?cs \<noteq> []"
    by simp_all
  note t2 = select_winner_spec [where reviews = ?r2 and ag = agent_demo and w = world_up
        and candidates = "[cand_four]" and res = ?hi and ag' = agent_demo and trigger = True
        and task = "[]" and ?ag1.0 = agent_demo and ?ag2.0 = agent_demo,
        THEN conjunct1, THEN mp, OF ne2]
  have "find (\<lambda>r. score_key r = Max (score_key ` set ?r2)) ?r2 = Some (select_winner ?r2)"
    using t2 by blast
  then have b: "find (\<lambda>r. score_key r = Max (score_key ` set ?r2)) ?r2 = Some (review_of 9 ''b'')"
    by (simp only: winner_example(2))
  note t1 = select_winner_spec [where reviews = ?r1 and ag = agent_demo and w = world_up
        and candidates = "[cand_four]" and res = ?hi and trigger = True
        and ag' = "agent_demo \<lparr> quality_milestones := [9] \<rparr>"
        and task = "[]" and ?ag1.0 = agent_demo and ?ag2.0 = agent_demo,
        THEN conjunct1, THEN mp, OF ne1]
  have h1: "(\<forall>r\<in>set ?r1. num_of (get_score r) \<noteq> None)
           \<and> should_trigger_improvement (quality_milestones agent_demo) (improvement_threshold agent_demo)
                (score_key (select_winner ?r1)) = Inr True"
    by (simp add: num_score_review_of trigger_examples(1) del: not_None_eq)
  have "select_and_learn agent_demo world_up [cand_four] ?r1 =
          (Inr (winner_result world_up (select_winner ?r1)),
           if True
           then agent_demo \<lparr> quality_milestones :=
                  quality_milestones agent_demo @ [score_key (select_winner ?r1)] \<rparr>
           else agent_demo)"
    using t1 h1 by blast
  then have c: "select_and_learn agent_demo world_up [cand_four] ?r1 = (Inr ?hi, ?nine)"
    by (simp add: winner_example(1) winner_result_review_of score_key_review_of)
       (simp add: agent_demo_def init_agent_def)
  note t3 = select_winner_spec [where reviews = ?r3 and ag = agent_demo
        and w = world_up and candidates = "[cand_four]" and res = ?me and trigger = True
        and ag' = "agent_demo \<lparr> quality_milestones := [7] \<rparr>"
        and task = "[]" and ?ag1.0 = agent_demo and ?ag2.0 = agent_demo,
        THEN conjunct1, THEN mp, OF ne3]
  have h3: "(\<forall>r\<in>set ?r3. num_of (get_score r) \<noteq> None)
           \<and> should_trigger_improvement (quality_milestones agent_demo) (improvement_threshold agent_demo)
                (score_key (select_winner ?r3)) = Inr True"
    by (simp add: num_score_review_of trigger_examples(1) del: not_None_eq)
  have "select_and_learn agent_demo world_up [cand_four] ?r3 =
          (Inr (winner_result world_up (select_winner ?r3)),
           if True
           then agent_demo \<lparr> quality_milestones :=
                  quality_milestones agent_demo @ [score_key (select_winner ?r3)] \<rparr>
           else agent_demo)"
    using t3 h3 by blast
  then have d: "select_and_learn agent_demo world_up [cand_four] ?r3
                  = (Inr ?me, agent_demo \<lparr> quality_milestones := [7] \<rparr>)"
    by (simp add: winner_example(3) winner_result_review_of score_key_review_of)
       (simp add: agent_demo_def init_agent_def)
  note t4 = select_winner_spec [where reviews = ?r3 and ag = ?nine
        and w = world_up and candidates = "[cand_four]" and res = ?me and trigger = False
        and ag' = ?nine
        and task = "[]" and ?ag1.0 = agent_demo and ?ag2.0 = agent_demo,
        THEN conjunct1, THEN mp, OF ne3]
  have h4: "(\<forall>r\<in>set ?r3. num_of (get_score r) \<noteq> None)
           \<and> should_trigger_improvement (quality_milestones ?nine) (improvement_threshold ?nine)
                (score_key (select_winner ?r3)) = Inr False"
    by (simp only: winner_example(3) score_key_review_of trigger_examples(2))
       (simp add: num_score_review_of del: not_None_eq)
  have "select_and_learn ?nine world_up [cand_four] ?r3 =
          (Inr (winner_result world_up (select_winner ?r3)),
           if False
           then ?nine \<lparr> quality_milestones :=
                  quality_milestones ?nine @ [score_key (select_winner ?r3)] \<rparr>
           else ?nine)"
    using t4 h4 by blast
  then have d2: "select_and_learn ?nine world_up [cand_four] ?r3 = (Inr ?me, ?nine)"
    by (simp add: winner_example(3) winner_result_review_of)
  have ne4: "[cand_four] \<noteq> []" and ne5: "[review_four] \<noteq> []" by simp_all
  have ms: "\<forall>m\<in>set (quality_milestones agent_open). 0 \<le> m"
    by (simp add: agent_open_def init_agent_def)
  have "fst (solve agent_open world_up ''What is 2 + 2?'')
          = winner_result world_up (select_winner [review_four])"
    using select_winner_spec [where reviews = "[review_four]" and ag = agent_open and w = world_up
        and candidates = "[cand_four]" and res = ?me and ag' = agent_open and trigger = True
        and task = "''What is 2 + 2?''"
        and ?ag1.0 = "agent_open \<lparr> request_timestamps := [0, 0, 0] \<rparr>"
        and ?ag2.0 = "agent_open \<lparr> request_timestamps := [0, 0, 0, 1] \<rparr>",
        THEN conjunct2, THEN conjunct2, THEN conjunct2, THEN conjunct2, THEN conjunct1]
      k2 generate_open ne4 review_open ne5 ms
    by blast
  then have d3: "fst (solve agent_open world_up ''What is 2 + 2?'')
       = \<lparr> solution = JStr ''2 + 2 = 4'', score = JNum (85 / 10), model = JStr ''gpt-4o'',
           processing_time = 2, confidence = ''high'', flaw_corrected = Some (JStr ''terse''),
           error = None, info = None \<rparr>"
    by (simp add: select_winner_def sorted_reviews_def winner_result_four)
  have e: "solve agent_limited world_down ''What is 2 + 2?'' = (no_candidates_result world_down, agent_limited)"
    using select_winner_spec [where reviews = "[]" and ag = agent_limited and w = world_down
        and candidates = "[]" and res = ?me and ag' = agent_limited and trigger = True
        and task = "''What is 2 + 2?''" and ?ag1.0 = agent_limited and ?ag2.0 = agent_limited,
        THEN conjunct2, THEN conjunct1]
      k1 generate_limited [of "''What is 2 + 2?''"]
    by blast
  have "select_and_learn agent_demo world_down ?cs []
       = (Inr (no_reviews_result world_down (py_max_key (\<lambda>x. length (c_text x)) ?cs)), agent_demo)"
    using select_winner_spec [where reviews = "[]" and ag = agent_demo and w = world_down
        and candidates = ?cs and res = ?me and ag' = agent_demo and trigger = True
        and task = "[]" and ?ag1.0 = agent_demo and ?ag2.0 = agent_demo,
        THEN conjunct2, THEN conjunct2, THEN conjunct1] nec
    by blast
  then have f: "select_and_learn agent_demo world_down ?cs []
       = (Inr (no_reviews_result world_down (candidate_of ''abcd'' ''m2'')), agent_demo)"
    by (simp only: longest_example)
  have "solve agent_open ?w ''What is 2 + 2?''
       = (no_reviews_result ?w (py_max_key (\<lambda>x. length (c_text x)) [cand_four]),
          agent_open \<lparr> request_timestamps := [0, 0, 0, 1] \<rparr>)"
    using select_winner_spec [where reviews = "[]" and ag = agent_open and w = ?w
        and candidates = "[cand_four]" and res = ?me and ag' = agent_open and trigger = True
        and task = "''What is 2 + 2?''"
        and ?ag1.0 = "agent_open \<lparr> request_timestamps := [0, 0, 0] \<rparr>"
        and ?ag2.0 = "agent_open \<lparr> request_timestamps := [0, 0, 0, 1] \<rparr>",
        THEN conjunct2, THEN conjunct2, THEN conjunct2, THEN conjunct1]
      k2 g ne4 review_timeout
    by blast
  then have h: "solve agent_open ?w ''What is 2 + 2?''
       = (no_reviews_result ?w cand_four, agent_open \<lparr> request_timestamps := [0, 0, 0, 1] \<rparr>)"
    by (simp only: m)
  let ?ag1 = "agent_shipped \<lparr> request_timestamps := [0, 0, 0] \<rparr>"
  have k3: "key_configured agent_shipped"
    by (simp add: key_configured_def agent_shipped_def init_agent_def cfg_demo_def)
  have sp: "suspicious_patterns ?ag1 = suspicious_patterns_init"
    by (simp add: agent_shipped_def init_agent_def)
  have pr: "peer_review ?ag1 world_up ''What is 2 + 2?'' [cand_four]
              = (Inr [], snd (peer_review ?ag1 world_up ''What is 2 + 2?'' [cand_four]))"
    using peer_review_shipped_patterns [OF sp, of world_up "''What is 2 + 2?''" "[cand_four]"]
    by (cases "peer_review ?ag1 world_up ''What is 2 + 2?'' [cand_four]") simp
  have "solve agent_shipped world_up ''What is 2 + 2?''
       = (no_reviews_result world_up (py_max_key (\<lambda>x. length (c_text x)) [cand_four]),
          snd (peer_review ?ag1 world_up ''What is 2 + 2?'' [cand_four]))"
    using select_winner_spec [where reviews = "[]" and ag = agent_shipped and w = world_up
        and candidates = "[cand_four]" and res = ?me and ag' = agent_shipped and trigger = True
        and task = "''What is 2 + 2?''" and ?ag1.0 = ?ag1
        and ?ag2.0 = "snd (peer_review ?ag1 world_up ''What is 2 + 2?'' [cand_four])",
        THEN conjunct2, THEN conjunct2, THEN conjunct2, THEN conjunct1]
      k3 generate_shipped ne4 pr
    by blast
  then have i: "fst (solve agent_shipped world_up ''What is 2 + 2?'') = no_reviews_result world_up cand_four"
    by (simp only: m fst_conv)
  show ?thesis using a b c d d2 d3 e f h i by (simp only: simp_thms)
qed

text \<open>
  C7. With an empty milestone log \<open>_should_trigger_improvement\<close> is true for every
  score. With a log whose greatest of the last ten entries is not \<open>-1e-5\<close> (the entries
  that \<open>solve\<close> appends are scores between 0 and 10) it is true iff the improvement over
  that greatest entry, divided by the entry plus \<open>1e-5\<close>, exceeds the threshold and the
  score exceeds 5; with the log \<open>[6, 7]\<close> and threshold 0.15 the score 8.5 triggers and
  7.5 does not. On the winning path of \<open>solve\<close> the winning score is appended to the log
  exactly when the function is true.
\<close>

theorem should_trigger_improvement_spec:
  "should_trigger_improvement [] threshold current_score = Inr True
   \<and> (milestones \<noteq> [] \<and> Max (set (last_ten milestones)) + 1 / 100000 \<noteq> 0 \<longrightarrow>
        should_trigger_improvement milestones threshold current_score =
          Inr ((current_score - Max (set (last_ten milestones)))
                 / (Max (set (last_ten milestones)) + 1 / 100000) > threshold
               \<and> current_score > 5))
   \<and> should_trigger_improvement [6, 7] (15 / 100) (85 / 10) = Inr True
   \<and> should_trigger_improvement [6, 7] (15 / 100) (75 / 10) = Inr False
   \<and> (reviews \<noteq> [] \<and> (\<forall>r\<in>set reviews. num_of (get_score r) \<noteq> None)
        \<and> should_trigger_improvement (quality_milestones ag) (improvement_threshold ag)
             (score_key (select_winner reviews)) = Inr trigger \<longrightarrow>
        quality_milestones (snd (select_and_learn ag w candidates reviews)) =
          (if trigger then quality_milestones ag @ [score_key (select_winner reviews)]
           else quality_milestones ag))"
proof (intro conjI impI)
  show "should_trigger_improvement [] threshold current_score = Inr True"
    by (simp add: should_trigger_improvement_def)
  show "should_trigger_improvement [6, 7] (15 / 100) (85 / 10) = Inr True" by (rule trigger_example_yes)
  show "should_trigger_improvement [6, 7] (15 / 100) (75 / 10) = Inr False" by (rule trigger_example_no)
next
  assume "milestones \<noteq> [] \<and> Max (set (last_ten milestones)) + 1 / 100000 \<noteq> 0"
  then show "should_trigger_improvement milestones threshold current_score =
          Inr ((current_score - Max (set (last_ten milestones)))
                 / (Max (set (last_ten milestones)) + 1 / 100000) > threshold
               \<and> current_score > 5)"
    by (intro should_trigger_nonempty) simp_all
next
  assume "reviews \<noteq> [] \<and> (\<forall>r\<in>set reviews. num_of (get_score r) \<noteq> None)
        \<and> should_trigger_improvement (quality_milestones ag) (improvement_threshold ag)
             (score_key (select_winner reviews)) = Inr trigger"
  then show "quality_milestones (snd (select_and_learn ag w candidates reviews)) =
          (if trigger then quality_milestones ag @ [score_key (select_winner reviews)]
           else quality_milestones ag)"
    by (intro learn_append) simp_all
qed

theorem should_trigger_improvement_spec_witness:
  "should_trigger_improvement [9, 2, 3, 4, 5, 6, 7, 8, 6, 1, 2] (15 / 100) 9 = Inr False
   \<and> should_trigger_improvement [9, 2, 3, 4, 5, 6, 7, 8, 6, 1, 2] (15 / 100) (95 / 10) = Inr True
   \<and> quality_milestones (snd (select_and_learn (agent_demo \<lparr> quality_milestones := [6, 7] \<rparr>)
         world_up [cand_four] [review_of (85 / 10) ''a''])) = [6, 7, 85 / 10]
   \<and> quality_milestones (snd (select_and_learn (agent_demo \<lparr> quality_milestones := [6, 7] \<rparr>)
         world_up [cand_four] [review_of (75 / 10) ''a''])) = [6, 7]"
proof -
  let ?ms = "[9, 2, 3, 4, 5, 6, 7, 8, 6, 1, 2 :: real]"
  let ?ag = "agent_demo \<lparr> quality_milestones := [6, 7] \<rparr>"
  have l: "last_ten ?ms = [2, 3, 4, 5, 6, 7, 8, 6, 1, 2]" by (simp add: last_ten_def)
  have mx: "Max (set (last_ten ?ms)) = 8" by (simp add: l)
  have h: "?ms \<noteq> [] \<and> Max (set (last_ten ?ms)) + 1 / 100000 \<noteq> 0"
    by (simp add: mx)
  have a: "should_trigger_improvement ?ms (15 / 100) 9 = Inr False"
    using should_trigger_improvement_spec [where milestones = ?ms and threshold = "15 / 100"
        and current_score = 9, THEN conjunct2, THEN conjunct1, THEN mp, OF h]
    by (simp add: mx)
  have b: "should_trigger_improvement ?ms (15 / 100) (95 / 10) = Inr True"
    using should_trigger_improvement_spec [where milestones = ?ms and threshold = "15 / 100"
        and current_score = "95 / 10", THEN conjunct2, THEN conjunct1, THEN mp, OF h]
    by (simp add: mx)
  have w: "select_winner [review_of s ''a''] = review_of s ''a''" for s
    by (simp add: select_winner_def sorted_reviews_def)
  have n: "[review_of s ''a''] \<noteq> [] \<and> (\<forall>r\<in>set [review_of s ''a'']. num_of (get_score r) \<noteq> None)" for s
    by (simp add: get_score_review_of num_of_def)
  have thr: "improvement_threshold ?ag = 15 / 100" "quality_milestones ?ag = [6, 7]"
    by (simp_all add: agent_demo_def init_agent_def)
  have c: "quality_milestones (snd (select_and_learn ?ag world_up [cand_four] [review_of (85 / 10) ''a''])) =
             [6, 7, 85 / 10]"
    using should_trigger_improvement_spec [where reviews = "[review_of (85 / 10) ''a'']" and ag = ?ag
        and trigger = True and w = world_up and candidates = "[cand_four]",
        THEN conjunct2, THEN conjunct2, THEN conjunct2, THEN conjunct2] n [of "85 / 10"]
      should_trigger_improvement_spec [where ag = ?ag, THEN conjunct2, THEN conjunct2, THEN conjunct1]
    by (simp add: w score_key_review_of thr)
  have d: "quality_milestones (snd (select_and_learn ?ag world_up [cand_four] [review_of (75 / 10) ''a''])) =
             [6, 7]"
    using should_trigger_improvement_spec [where reviews = "[review_of (75 / 10) ''a'']" and ag = ?ag
        and trigger = False and w = world_up and candidates = "[cand_four]",
        THEN conjunct2, THEN conjunct2, THEN conjunct2, THEN conjunct2] n [of "75 / 10"]
      should_trigger_improvement_spec [where ag = ?ag, THEN conjunct2, THEN conjunct2, THEN conjunct2,
        THEN conjunct1]
    by (simp add: w score_key_review_of thr)
  show ?thesis using a b c d by (simp only: simp_thms)
qed

section \<open>Verification: the claims on the gateway and the reviewer\<close>

lemma extract_text_no_choices:
  "map_of kv ''choices'' = None \<or> map_of kv ''choices'' = Some (JArr []) \<Longrightarrow>
   extract_text (JObj kv) = Inl (Exn ValueError ''Invalid model response format'')"
  by (auto simp: extract_text_def py_contains_def py_getitem_def py_len_def)

lemma retry_loop_malformed:
  assumes "http attempt = Response 200 body (Inr result)"
    and "extract_text result = Inl (Exn ValueError ''Invalid model response format'')"
  shows "retry_loop http retries m (attempt # rest) =
           (if int attempt = retries - 1
            then Inl (Exn ValueError ''Invalid model response format'')
            else retry_loop http retries m rest)"
  using assms by simp

text \<open>
  C2. A well-formed HTTP 200 reply without \<open>choices\<close> on the first of three attempts does
  not end the call: the \<open>ValueError\<close> is caught by the handler of the loop, the second
  attempt is made, and its answer is returned.
\<close>

theorem call_openrouter_malformed_is_retried:
  "call_openrouter agent_shipped 0 malformed_then_ok ''gpt-4o''
     (build_generation_prompt ''What is 2 + 2?'')
   = (Inr \<lparr> c_text = ''Four.'', c_model = ''gpt-4o'', c_request_id = Some (JStr ''req-1''),
             c_error = None \<rparr>,
      agent_shipped \<lparr> request_timestamps := [0] \<rparr>)"
proof -
  have e: "extract_text (JObj [(''id'', JStr ''req-0'')]) =
             Inl (Exn ValueError ''Invalid model response format'')"
    by (rule extract_text_no_choices) simp
  have s: "py_strip ''Four.'' = ''Four.''" by (simp add: py_strip_def py_isspace_def)
  have v: "validate_prompt sec_default suspicious_patterns_init
             (build_generation_prompt ''What is 2 + 2?'') = Inr True"
    by (rule generation_prompt_clean)
  have q: "rate_limit_requests sec_default = 100" "rate_limit_window sec_default = 60"
    by (simp_all add: sec_default_def)
  show ?thesis
    by (simp add: call_openrouter_def agent_shipped_def init_agent_def cfg_demo_def
          check_rate_limit_def v q upt_rec malformed_then_ok_def e extract_reply s
          request_id_reply)
qed

subsection \<open>The pairing of reviews and candidates\<close>
















text \<open>
  The pairing is by position in \<open>zip(candidates, review_results)\<close>, and the results are
  those of the candidates that the first loop did not skip. \<open>solve\<close> passes no candidate
  with an empty text, so the two lists run in step there. For a list with such a
  candidate, and an agent whose pattern list has been emptied, they do not: the review
  made from the prompt of the second candidate carries the text and the backend of the
  first.
\<close>

lemma peer_review_zip_unfiltered:
  "review_prompts ''What is 2 + 2?'' [cand_exhausted, cand_four] =
     [build_review_prompt ''What is 2 + 2?'' (c_text cand_four)]
   \<and> fst (peer_review agent_open world_up ''What is 2 + 2?'' [cand_exhausted, cand_four]) =
     Inr [review_by cand_exhausted]
   \<and> c_text cand_exhausted \<noteq> c_text cand_four
   \<and> c_model cand_exhausted \<noteq> c_model cand_four"
proof -
  have s: "py_strip ''Four.'' = ''Four.''" "py_strip [] = []" by (simp_all add: py_strip_def py_isspace_def)
  have p: "review_prompts ''What is 2 + 2?'' [cand_exhausted, cand_four] =
     [build_review_prompt ''What is 2 + 2?'' (c_text cand_four)]"
    by (simp add: review_prompts_def cand_exhausted_def cand_four_def s)
  have r: "fst (peer_review agent_open world_up ''What is 2 + 2?'' [cand_exhausted, cand_four]) =
     Inr [review_by cand_exhausted]"
    apply (simp add: peer_review_def p)
    apply (simp add: agent_open_def init_agent_def cfg_demo_def world_up_def
        call_openrouter_def check_rate_limit_def sec_default_def Let_def validate_no_patterns
        length_review_prompt extract_reply upt_rec request_id_reply strip_review
        review_data_of_def parse_review_response_def brace_review loads_demo_def validate_review_scores_def get_score_def
        num_of_def review_by_def cand_exhausted_def cand_four_def)
    done
  have d: "c_text cand_exhausted \<noteq> c_text cand_four" "c_model cand_exhausted \<noteq> c_model cand_four"
    by (simp_all add: cand_exhausted_def cand_four_def)
  show ?thesis using p r d by (simp only: simp_thms)
qed

subsection \<open>Dropped reviews\<close>

















text \<open>
  A reply in which no JSON object is found does not make the parse raise: the regular
  expressions supply the score 5 when the reply holds no score either, and the loop
  keeps the review. An agent with the patterns of \<open>__init__\<close> gets no reply to a review
  prompt, so its loop never comes to this.
\<close>

lemma parse_fallback:
  "brace_match t = None
   \<or> (\<exists>m e. brace_match t = Some m \<and> loads m = Inl e \<and> exn_cls e = JSONDecodeError) \<Longrightarrow>
   parse_review_response loads t = Inr (regex_fallback t)"
  by (auto simp: parse_review_response_def)

lemma parse_never_decode_error:
  "parse_review_response loads t = Inl e \<Longrightarrow> exn_cls e \<noteq> JSONDecodeError"
  by (auto simp: parse_review_response_def split: option.splits sum.splits if_splits)

lemma fallback_score_default:
  "re_search match_score t = None \<Longrightarrow> get_score (regex_fallback t) = JNum 5"
  by (simp add: get_score_def regex_fallback_def)

lemma no_brace: "brace_match ''I cannot review this.'' = None"
  by (simp add: brace_match_def)

lemma no_score: "re_search match_score ''I cannot review this.'' = None"
  by (simp add: match_score_def starts_with_def dquote_def)

lemma fallback_review_kept:
  "review_loop loads_demo ''gpt-4o''
     [(cand_four, Inr (candidate_of ''I cannot review this.'' ''gpt-4o''))]
   = Inr [(regex_fallback ''I cannot review this.'')
            (''original'' \<mapsto> JStr ''Four.'', ''model'' \<mapsto> JStr ''gpt-4o'',
             ''reviewer'' \<mapsto> JStr ''gpt-4o'')]"
proof -
  have p: "parse_review_response loads_demo ''I cannot review this.''
             = Inr (regex_fallback ''I cannot review this.'')"
    using no_brace by (simp add: parse_fallback)
  have s: "get_score (regex_fallback ''I cannot review this.'') = JNum 5"
    using no_score by (rule fallback_score_default)
  have g: "get_score ((regex_fallback ''I cannot review this.'')
            (''original'' \<mapsto> JStr ''Four.'', ''model'' \<mapsto> JStr ''gpt-4o'',
             ''reviewer'' \<mapsto> JStr ''gpt-4o'')) = JNum 5"
    using s by (simp add: get_score_def)
  show ?thesis
    by (simp add: review_data_of_def candidate_of_def p cand_four_def Let_def
          validate_review_scores_def g num_of_def del: re_search.simps)
qed

end
